theory Spec2Isabelle
  imports Complex_Main "HOL-Library.Multiset"
begin

section \<open>Data model of the fuzzy wall detector\<close>

text \<open>
  The detector (\<^verbatim>\<open>src/services/fuzzy-wall-detector.py\<close>) passes walls and openings around
  as Python dictionaries. A wall dictionary becomes the record \<open>wall\<close>, one field per key:
  \<^verbatim>\<open>start\<close>, \<^verbatim>\<open>end\<close> (here \<open>end_pt\<close>), \<^verbatim>\<open>length\<close> (here \<open>length_w\<close>), \<^verbatim>\<open>angle\<close>,
  \<^verbatim>\<open>type\<close> (here \<open>wall_type\<close>), \<^verbatim>\<open>confidence\<close>, \<^verbatim>\<open>is_sketchy\<close>, \<^verbatim>\<open>thickness\<close>,
  \<^verbatim>\<open>source\<close>, and \<^verbatim>\<open>structural_score\<close>, a key that only \<^verbatim>\<open>apply_structural_focus\<close>
  adds (\<open>None\<close> while the key is absent). End points are built with \<^verbatim>\<open>int(...)\<close>, so they
  are integers; every Python float is a \<open>real\<close> here.
\<close>

record wall =
  start :: "int \<times> int"
  end_pt :: "int \<times> int"
  length_w :: real
  angle :: real
  wall_type :: string
  confidence :: real
  is_sketchy :: bool
  thickness :: real
  source :: string
  structural_score :: "real option"

section \<open>AngleClassifier\<close>

text \<open>
  \<^verbatim>\<open>classify_angle_fuzzy\<close> returns the tuple
  \<^verbatim>\<open>(is_horizontal, is_vertical, is_diagonal, confidence)\<close>; the \<^verbatim>\<open>if/elif/elif\<close> chain
  that computes the confidence is kept in its order, and \<^verbatim>\<open>confidence = 1.0\<close> is the value
  when no branch is taken.
\<close>

definition classify_angle_fuzzy :: "real \<Rightarrow> bool \<times> bool \<times> bool \<times> real" where
  "classify_angle_fuzzy a =
     (let is_horizontal = (\<bar>a\<bar> < 15 \<or> \<bar>a\<bar> > 165);
          is_vertical = (75 < \<bar>a\<bar> \<and> \<bar>a\<bar> < 105);
          is_diagonal = ((35 < \<bar>a\<bar> \<and> \<bar>a\<bar> < 55) \<or> (125 < \<bar>a\<bar> \<and> \<bar>a\<bar> < 145));
          conf =
            (if is_horizontal then max 0.5 (1.0 - min \<bar>a\<bar> \<bar>\<bar>a\<bar> - 180\<bar> / 15.0)
             else if is_vertical then max 0.5 (1.0 - \<bar>\<bar>a\<bar> - 90\<bar> / 15.0)
             else if is_diagonal then max 0.4 (1.0 - min \<bar>\<bar>a\<bar> - 45\<bar> \<bar>\<bar>a\<bar> - 135\<bar> / 20.0)
             else 1.0)
      in (is_horizontal, is_vertical, is_diagonal, conf))"

definition is_horizontal :: "real \<Rightarrow> bool" where
  "is_horizontal a = fst (classify_angle_fuzzy a)"

definition is_vertical :: "real \<Rightarrow> bool" where
  "is_vertical a = fst (snd (classify_angle_fuzzy a))"

definition is_diagonal :: "real \<Rightarrow> bool" where
  "is_diagonal a = fst (snd (snd (classify_angle_fuzzy a)))"

definition angle_confidence :: "real \<Rightarrow> real" where
  "angle_confidence a = snd (snd (snd (classify_angle_fuzzy a)))"

text \<open>
  The deviation from the band centre, as the three branches compute it.
\<close>

definition deviation_horizontal :: "real \<Rightarrow> real" where
  "deviation_horizontal a = min \<bar>a\<bar> \<bar>\<bar>a\<bar> - 180\<bar>"

definition deviation_vertical :: "real \<Rightarrow> real" where
  "deviation_vertical a = \<bar>\<bar>a\<bar> - 90\<bar>"

definition deviation_diagonal :: "real \<Rightarrow> real" where
  "deviation_diagonal a = min \<bar>\<bar>a\<bar> - 45\<bar> \<bar>\<bar>a\<bar> - 135\<bar>"

text \<open>
  The confidence as the specification words it: linear in the deviation, 1.0 at the band
  centre and the floor exactly at the band edge (15 degrees and 0.5 for horizontal and
  vertical, 10 degrees and 0.4 for diagonal).
\<close>

definition spec_angle_confidence :: "real \<Rightarrow> real" where
  "spec_angle_confidence a =
     (if is_horizontal a then 1 - (1 - 0.5) * deviation_horizontal a / 15
      else if is_vertical a then 1 - (1 - 0.5) * deviation_vertical a / 15
      else if is_diagonal a then 1 - (1 - 0.4) * deviation_diagonal a / 10
      else 1)"

section \<open>LineGrouper: the parallel-and-close predicate\<close>

definition line_to_line_distance :: "'a wall_scheme \<Rightarrow> 'a wall_scheme \<Rightarrow> real" where
  "line_to_line_distance line1 line2 =
     (let mid1_x = (real_of_int (fst (start line1)) + real_of_int (fst (end_pt line1))) / 2;
          mid1_y = (real_of_int (snd (start line1)) + real_of_int (snd (end_pt line1))) / 2;
          mid2_x = (real_of_int (fst (start line2)) + real_of_int (fst (end_pt line2))) / 2;
          mid2_y = (real_of_int (snd (start line2)) + real_of_int (snd (end_pt line2))) / 2
      in sqrt ((mid2_x - mid1_x)\<^sup>2 + (mid2_y - mid1_y)\<^sup>2))"

definition are_parallel_and_close :: "'a wall_scheme \<Rightarrow> 'a wall_scheme \<Rightarrow> bool" where
  "are_parallel_and_close line1 line2 =
     (let angle_diff = \<bar>angle line1 - angle line2\<bar>;
          angle_diff = (if angle_diff > 180 then 360 - angle_diff else angle_diff)
      in if angle_diff > 15 then False
         else
           (let distance = line_to_line_distance line1 line2;
                avg_length = (length_w line1 + length_w line2) / 2;
                max_thickness =
                  (if avg_length > 500 then 50 else if avg_length > 200 then 30 else (15::real))
            in 1 < distance \<and> distance < max_thickness))"

text \<open>The two conditions of the specification, in its words.\<close>

definition wrapped_angle_difference :: "'a wall_scheme \<Rightarrow> 'a wall_scheme \<Rightarrow> real" where
  "wrapped_angle_difference line1 line2 =
     (if \<bar>angle line1 - angle line2\<bar> > 180 then 360 - \<bar>angle line1 - angle line2\<bar>
      else \<bar>angle line1 - angle line2\<bar>)"

definition scale_adaptive_threshold :: "'a wall_scheme \<Rightarrow> 'a wall_scheme \<Rightarrow> real" where
  "scale_adaptive_threshold line1 line2 =
     (if (length_w line1 + length_w line2) / 2 > 500 then 50
      else if (length_w line1 + length_w line2) / 2 > 200 then 30 else 15)"

definition spec_parallel_and_close :: "'a wall_scheme \<Rightarrow> 'a wall_scheme \<Rightarrow> bool" where
  "spec_parallel_and_close line1 line2 =
     (wrapped_angle_difference line1 line2 \<le> 15 \<and>
      line_to_line_distance line1 line2 < scale_adaptive_threshold line1 line2)"


section \<open>LineGrouper: transitive grouping\<close>

text \<open>
  \<^verbatim>\<open>group_parallel_lines\<close> keeps a list \<^verbatim>\<open>group\<close> (here \<open>grp\<close>), a set \<^verbatim>\<open>used\<close> of
  indices into \<^verbatim>\<open>lines\<close> and the flag \<^verbatim>\<open>added_to_group\<close>. \<open>scan_candidates\<close> is the
  innermost loop over \<^verbatim>\<open>enumerate(lines)\<close> for one \<^verbatim>\<open>existing_line\<close>; \<open>grow_pass\<close> is
  the loop \<^verbatim>\<open>for existing_line in group\<close>, which also visits the lines appended while it
  runs (index \<open>k\<close> into the growing list); \<open>grow_group\<close> is the \<^verbatim>\<open>while added_to_group\<close>
  loop; \<open>group_loop\<close> is the outer loop over \<^verbatim>\<open>enumerate(lines)\<close>.
\<close>

type_synonym 'a group_state = "'a wall_scheme list \<times> nat set \<times> bool"

fun scan_candidates ::
  "'a wall_scheme \<Rightarrow> (nat \<times> 'a wall_scheme) list \<Rightarrow> 'a group_state \<Rightarrow> 'a group_state" where
  "scan_candidates existing_line [] st = st"
| "scan_candidates existing_line ((j, candidate_line) # rest) (grp, used, added) =
     (if j \<in> used then scan_candidates existing_line rest (grp, used, added)
      else if are_parallel_and_close existing_line candidate_line
        then scan_candidates existing_line rest (grp @ [candidate_line], insert j used, True)
        else scan_candidates existing_line rest (grp, used, added))"

definition unused_count :: "nat \<Rightarrow> nat set \<Rightarrow> nat" where
  "unused_count n used = card ({..<n} - used)"

lemma unused_count_insert:
  "j < n \<Longrightarrow> j \<notin> used \<Longrightarrow> Suc (unused_count n (insert j used)) = unused_count n used"
proof -
  assume j: "j < n" "j \<notin> used"
  have "{..<n} - used = insert j ({..<n} - insert j used)" using j by auto
  moreover have "j \<notin> {..<n} - insert j used" by simp
  ultimately show ?thesis
    unfolding unused_count_def by (metis card_insert_disjoint finite_Diff finite_lessThan)
qed

lemma unused_count_mono: "u \<subseteq> u' \<Longrightarrow> unused_count n u' \<le> unused_count n u"
  unfolding unused_count_def by (intro card_mono) auto

lemma scan_candidates_measure:
  assumes "scan_candidates e js (g, u, a) = (g', u', a')"
    and "\<forall>p \<in> set js. fst p < n"
  shows "length g' + unused_count n u' = length g + unused_count n u \<and> u \<subseteq> u' \<and>
         (a' \<longleftrightarrow> a \<or> unused_count n u' < unused_count n u)"
  using assms
proof (induction js arbitrary: g u a)
  case Nil
  then show ?case by simp
next
  case (Cons p js)
  obtain j c where p: "p = (j, c)" by (cases p)
  have jn: "j < n" using Cons.prems(2) p by simp
  have rest: "\<forall>p \<in> set js. fst p < n" using Cons.prems(2) by simp
  show ?case
  proof (cases "j \<in> u")
    case True
    with Cons.prems(1) p have "scan_candidates e js (g, u, a) = (g', u', a')" by simp
    from Cons.IH [OF this rest] show ?thesis .
  next
    case False
    show ?thesis
    proof (cases "are_parallel_and_close e c")
      case True
      with False Cons.prems(1) p
      have "scan_candidates e js (g @ [c], insert j u, True) = (g', u', a')" by simp
      from Cons.IH [OF this rest] unused_count_insert [OF jn False]
        unused_count_mono [of "insert j u" u' n]
      show ?thesis by auto
    next
      case nc: False
      with False Cons.prems(1) p have "scan_candidates e js (g, u, a) = (g', u', a')" by simp
      from Cons.IH [OF this rest] show ?thesis .
    qed
  qed
qed

lemma enumerate_fst_bound: "\<forall>p \<in> set (enumerate 0 xs). fst p < length xs"
  by (auto simp: in_set_enumerate_eq)

function grow_pass :: "'a wall_scheme list \<Rightarrow> nat \<Rightarrow> 'a group_state \<Rightarrow> 'a group_state" where
  "grow_pass lines k (grp, used, added) =
     (if k < length grp
      then grow_pass lines (Suc k)
             (scan_candidates (grp ! k) (enumerate 0 lines) (grp, used, added))
      else (grp, used, added))"
  by pat_completeness auto
termination
proof (relation "measure (\<lambda>(lines, k, grp, used, added).
          2 * unused_count (length lines) used + (length grp - k))")
  show "wf (measure (\<lambda>(lines, k, grp, used, added).
          2 * unused_count (length lines) used + (length grp - k)))" by simp
next
  fix lines grp :: "'a wall_scheme list" and k :: nat and used :: "nat set" and added :: bool
  assume k: "k < length grp"
  obtain g' u' a' where s:
    "scan_candidates (grp ! k) (enumerate 0 lines) (grp, used, added) = (g', u', a')"
    by (cases "scan_candidates (grp ! k) (enumerate 0 lines) (grp, used, added)") auto
  from scan_candidates_measure [OF s enumerate_fst_bound]
  have "length g' + unused_count (length lines) u' = length grp + unused_count (length lines) used"
    and "u' \<supseteq> used"
    by simp_all
  with k unused_count_mono [of used u' "length lines"]
  show "((lines, Suc k, scan_candidates (grp ! k) (enumerate 0 lines) (grp, used, added)),
        (lines, k, grp, used, added))
       \<in> measure (\<lambda>(lines, k, grp, used, added).
          2 * unused_count (length lines) used + (length grp - k))"
    unfolding s by simp
qed

declare grow_pass.simps [simp del]

lemma grow_pass_measure:
  "unused_count (length lines) (fst (snd (grow_pass lines k st)))
     \<le> unused_count (length lines) (fst (snd st)) \<and>
   (snd (snd (grow_pass lines k st)) \<longleftrightarrow>
      snd (snd st) \<or>
      unused_count (length lines) (fst (snd (grow_pass lines k st)))
        < unused_count (length lines) (fst (snd st)))"
proof (induction lines k st rule: grow_pass.induct)
  case (1 lines k grp used added)
  show ?case
  proof (cases "k < length grp")
    case True
    obtain g1 u1 a1 where s:
      "scan_candidates (grp ! k) (enumerate 0 lines) (grp, used, added) = (g1, u1, a1)"
      by (cases "scan_candidates (grp ! k) (enumerate 0 lines) (grp, used, added)") auto
    have r: "grow_pass lines k (grp, used, added) = grow_pass lines (Suc k) (g1, u1, a1)"
      using True s by (simp add: grow_pass.simps [of lines k])
    from "1.IH" [OF True] s
    have ih: "unused_count (length lines) (fst (snd (grow_pass lines (Suc k) (g1, u1, a1))))
          \<le> unused_count (length lines) u1 \<and>
        (snd (snd (grow_pass lines (Suc k) (g1, u1, a1))) \<longleftrightarrow>
          a1 \<or> unused_count (length lines) (fst (snd (grow_pass lines (Suc k) (g1, u1, a1))))
            < unused_count (length lines) u1)"
      by simp
    from scan_candidates_measure [OF s enumerate_fst_bound] unused_count_mono [of used u1 "length lines"]
    have sc: "unused_count (length lines) u1 \<le> unused_count (length lines) used"
      "a1 \<longleftrightarrow> added \<or> unused_count (length lines) u1 < unused_count (length lines) used"
      by auto
    show ?thesis unfolding r using ih sc by auto
  next
    case False
    then show ?thesis by (simp add: grow_pass.simps [of lines k])
  qed
qed

lemma grow_pass_added:
  assumes "(g', u', True) = grow_pass lines 0 (g, u, False)"
  shows "unused_count (length lines) u' < unused_count (length lines) u"
  using grow_pass_measure [of lines 0 "(g, u, False)"] assms [symmetric] by simp

function grow_group ::
  "'a wall_scheme list \<Rightarrow> 'a wall_scheme list \<times> nat set \<Rightarrow> 'a wall_scheme list \<times> nat set" where
  "grow_group lines (grp, used) =
     (case grow_pass lines 0 (grp, used, False) of
        (grp', used', added_to_group) \<Rightarrow>
          if added_to_group then grow_group lines (grp', used') else (grp', used'))"
  by pat_completeness auto
termination
  by (relation "measure (\<lambda>(lines, grp, used). unused_count (length lines) used)")
    (auto dest: grow_pass_added)

fun group_loop ::
  "'a wall_scheme list \<Rightarrow> (nat \<times> 'a wall_scheme) list \<Rightarrow>
   'a wall_scheme list list \<times> nat set \<Rightarrow> 'a wall_scheme list list" where
  "group_loop lines [] (groups, used) = groups"
| "group_loop lines ((i, line1) # rest) (groups, used) =
     (if i \<in> used then group_loop lines rest (groups, used)
      else
        (case grow_group lines ([line1], insert i used) of
           (grp, used') \<Rightarrow>
             group_loop lines rest
               (if length grp > 0 then groups @ [grp] else groups, used')))"

definition group_parallel_lines :: "'a wall_scheme list \<Rightarrow> 'a wall_scheme list list" where
  "group_parallel_lines lines = group_loop lines (enumerate 0 lines) ([], {})"

declare grow_group.simps [simp del]

section \<open>Thickness estimation and candidate walls\<close>

text \<open>
  The grayscale buffer is a NumPy array: \<open>shape0\<close> and \<open>shape1\<close> are \<^verbatim>\<open>gray.shape[0]\<close>
  (height) and \<^verbatim>\<open>gray.shape[1]\<close> (width), and \<open>pixel g y x\<close> is \<^verbatim>\<open>gray[y, x]\<close>, read
  only where the source has checked the bounds. \<open>py_int\<close> is Python's \<^verbatim>\<open>int(...)\<close> on a
  float: truncation towards zero.
\<close>

record gray_image =
  shape0 :: nat
  shape1 :: nat
  pixel :: "nat \<Rightarrow> nat \<Rightarrow> nat"

definition py_int :: "real \<Rightarrow> int" where
  "py_int r = (if 0 \<le> r then \<lfloor>r\<rfloor> else \<lceil>r\<rceil>)"

text \<open>
  The sampling loop \<^verbatim>\<open>for offset in range(3, 20)\<close> of \<^verbatim>\<open>estimate_thickness\<close>: the result
  is the value of \<^verbatim>\<open>thickness\<close> when the loop ends, 6.0 unless a bright pixel is hit.
  Nothing in the loop raises (the pixel is read inside the bounds check), so the
  \<^verbatim>\<open>except\<close> branch that resets the thickness to 6.0 has no counterpart.
\<close>

fun thickness_scan :: "gray_image \<Rightarrow> int \<Rightarrow> int \<Rightarrow> real \<Rightarrow> real \<Rightarrow> int list \<Rightarrow> real" where
  "thickness_scan gray_img mid_x mid_y perp_dx perp_dy [] = 6.0"
| "thickness_scan gray_img mid_x mid_y perp_dx perp_dy (offset # rest) =
     (let sample_x = py_int (real_of_int mid_x + real_of_int offset * perp_dx);
          sample_y = py_int (real_of_int mid_y + real_of_int offset * perp_dy)
      in if 0 \<le> sample_x \<and> sample_x < int (shape1 gray_img) \<and>
            0 \<le> sample_y \<and> sample_y < int (shape0 gray_img)
         then (if pixel gray_img (nat sample_y) (nat sample_x) > 200
               then real_of_int (offset * 2)
               else thickness_scan gray_img mid_x mid_y perp_dx perp_dy rest)
         else thickness_scan gray_img mid_x mid_y perp_dx perp_dy rest)"

definition estimate_thickness :: "int \<Rightarrow> int \<Rightarrow> int \<Rightarrow> int \<Rightarrow> gray_image \<Rightarrow> real" where
  "estimate_thickness x1 y1 x2 y2 gray_img =
     (let len = sqrt (real_of_int ((x2 - x1)\<^sup>2 + (y2 - y1)\<^sup>2))
      in if len = 0 then 6.0
         else
           (let dx = real_of_int (x2 - x1) / len;
                dy = real_of_int (y2 - y1) / len;
                perp_dx = - dy;
                perp_dy = dx;
                mid_x = (x1 + x2) div 2;
                mid_y = (y1 + y2) div 2;
                thickness = thickness_scan gray_img mid_x mid_y perp_dx perp_dy [3..19]
            in min (max thickness 3) 25))"

text \<open>
  \<^verbatim>\<open>np.arctan2(y, x)\<close>, the angle of the point \<open>(x, y)\<close> in \<open>(-pi, pi]\<close>, written with
  \<open>arctan\<close>.
\<close>

definition arctan2 :: "real \<Rightarrow> real \<Rightarrow> real" where
  "arctan2 y x =
     (if 0 < x then arctan (y / x)
      else if x < 0 then (if 0 \<le> y then arctan (y / x) + pi else arctan (y / x) - pi)
      else if 0 < y then pi / 2
      else if y < 0 then - (pi / 2)
      else 0)"

text \<open>
  Step 1 of \<^verbatim>\<open>detect_walls_fuzzy\<close>: the body of the loop over the Hough lines, which
  appends a candidate wall or skips the line.
\<close>

fun candidate_wall :: "gray_image \<Rightarrow> int \<times> int \<times> int \<times> int \<Rightarrow> wall option" where
  "candidate_wall gray (x1, y1, x2, y2) =
     (let len = sqrt (real_of_int ((x2 - x1)\<^sup>2 + (y2 - y1)\<^sup>2));
          ang = arctan2 (real_of_int (y2 - y1)) (real_of_int (x2 - x1)) * 180 / pi
      in case classify_angle_fuzzy ang of
           (is_h, is_v, is_d, conf) \<Rightarrow>
             if (is_h \<or> is_v \<or> is_d) \<and> len > 100
             then Some \<lparr>start = (x1, y1), end_pt = (x2, y2), length_w = len, angle = ang,
                        wall_type = (if is_h then ''horizontal''
                                     else if is_v then ''vertical'' else ''diagonal''),
                        confidence = conf, is_sketchy = (conf < 0.8),
                        thickness = estimate_thickness x1 y1 x2 y2 gray,
                        source = ''fuzzy_canny'', structural_score = None\<rparr>
             else None)"

definition classify_lines :: "gray_image \<Rightarrow> (int \<times> int \<times> int \<times> int) list \<Rightarrow> wall list" where
  "classify_lines gray lines = List.map_filter (candidate_wall gray) lines"

section \<open>SegmentConsolidator\<close>

text \<open>
  The nested loops \<^verbatim>\<open>for i\<close>, \<^verbatim>\<open>for j in range(i+1, n)\<close> of
  \<^verbatim>\<open>calculate_group_thickness\<close> collect the distances in this order.
\<close>

fun pairwise_distances :: "'a wall_scheme list \<Rightarrow> real list" where
  "pairwise_distances [] = []"
| "pairwise_distances (l # ls) = map (line_to_line_distance l) ls @ pairwise_distances ls"

definition calculate_group_thickness :: "'a wall_scheme list \<Rightarrow> real" where
  "calculate_group_thickness line_group =
     (if length line_group < 2 then 6.0
      else
        (case pairwise_distances line_group of
           [] \<Rightarrow> 6.0
         | d # ds \<Rightarrow> min (max (foldl max d ds) 4) 25))"

text \<open>
  \<^verbatim>\<open>max(line_group, key=lambda l: l['length'])\<close>: the first line of maximal length.
\<close>

fun max_by_length :: "'a wall_scheme \<Rightarrow> 'a wall_scheme list \<Rightarrow> 'a wall_scheme" where
  "max_by_length best [] = best"
| "max_by_length best (l # ls) =
     max_by_length (if length_w l > length_w best then l else best) ls"

fun merge_collinear_segments :: "wall list \<Rightarrow> wall list" where
  "merge_collinear_segments [] = []"
| "merge_collinear_segments [l] = [l]"
| "merge_collinear_segments (l # ls) =
     (let main_line = max_by_length l ls;
          thickness = calculate_group_thickness (l # ls)
      in [\<lparr>start = start main_line, end_pt = end_pt main_line,
           length_w = length_w main_line, angle = angle main_line,
           wall_type = wall_type main_line,
           confidence = min 1.0 (confidence main_line * 1.2),
           is_sketchy = False, thickness = thickness,
           source = ''consolidated'', structural_score = None\<rparr>])"

definition calculate_wall_thickness_from_groups :: "wall list \<Rightarrow> wall list" where
  "calculate_wall_thickness_from_groups walls = walls"

section \<open>StructuralScorer\<close>

definition is_perimeter_wall :: "'a wall_scheme \<Rightarrow> bool" where
  "is_perimeter_wall w =
     (case (start w, end_pt w) of
        ((start_x, start_y), (end_x, end_y)) \<Rightarrow>
          (let edge_threshold = 50;
               near_edge = (start_x < edge_threshold \<or> end_x < edge_threshold \<or>
                            start_y < edge_threshold \<or> end_y < edge_threshold)
           in near_edge \<and> length_w w > 200))"

definition calculate_structural_importance :: "'a wall_scheme \<Rightarrow> real" where
  "calculate_structural_importance w =
     (let score = 0.0;
          score = score + (if length_w w > 300 then 0.4
                           else if length_w w > 150 then 0.3
                           else if length_w w > 100 then 0.2
                           else if length_w w > 50 then 0.1 else 0);
          score = score + (if thickness w > 15 then 0.2
                           else if thickness w > 8 then 0.15
                           else if thickness w > 4 then 0.1 else 0);
          score = score + (if source w = ''consolidated'' then 0.25 else 0);
          score = score + (if is_perimeter_wall w then 0.2 else 0);
          score = score + confidence w * 0.1
      in min score 1.0)"

text \<open>\<^verbatim>\<open>w.get('structural_score', 0)\<close> and \<^verbatim>\<open>w['structural_score']\<close> on a scored wall.\<close>

definition score_of :: "'a wall_scheme \<Rightarrow> real" where
  "score_of w = (case structural_score w of None \<Rightarrow> 0 | Some s \<Rightarrow> s)"

definition calculate_realistic_wall_count :: "'a wall_scheme list \<Rightarrow> nat" where
  "calculate_realistic_wall_count walls =
     (if walls = [] then 0
      else
        (let total_wall_length = sum_list (map length_w walls);
             avg_wall_length = total_wall_length / real (length walls);
             base_count = (if avg_wall_length > 400 then 35
                           else if avg_wall_length > 200 then 30 else (25::nat));
             high_importance = length (filter (\<lambda>w. score_of w > 0.7) walls);
             medium_importance =
               length (filter (\<lambda>w. 0.4 < score_of w \<and> score_of w \<le> 0.7) walls);
             realistic_count = min (high_importance + medium_importance div 2) base_count
         in max realistic_count 15))"

text \<open>
  \<^verbatim>\<open>list.sort(key=..., reverse=True)\<close> is a stable sort into descending key order: walls
  of equal key keep their order. \<open>sort_key\<close> is a stable ascending sort, so the key is
  negated.
\<close>

definition sort_descending :: "('a \<Rightarrow> real) \<Rightarrow> 'a list \<Rightarrow> 'a list" where
  "sort_descending key xs = sort_key (\<lambda>x. - key x) xs"

text \<open>
  The walls that reach \<^verbatim>\<open>calculate_realistic_wall_count\<close> inside
  \<^verbatim>\<open>apply_structural_focus\<close>: scored, kept when the score exceeds 0.3, sorted.
\<close>

definition structural_walls :: "'a wall_scheme list \<Rightarrow> 'a wall_scheme list" where
  "structural_walls walls =
     sort_descending score_of
       (filter (\<lambda>w. score_of w > 0.3)
          (map (\<lambda>w. w\<lparr>structural_score := Some (calculate_structural_importance w)\<rparr>) walls))"

definition apply_structural_focus :: "'a wall_scheme list \<Rightarrow> 'a wall_scheme list" where
  "apply_structural_focus walls =
     (if walls = [] then []
      else
        (let max_walls = calculate_realistic_wall_count (structural_walls walls)
         in if length (structural_walls walls) > max_walls
            then take max_walls (structural_walls walls)
            else structural_walls walls))"

definition consolidate_wall_segments :: "wall list \<Rightarrow> wall list" where
  "consolidate_wall_segments line_segments =
     (if line_segments = [] then []
      else
        (let wall_groups = group_parallel_lines line_segments;
             consolidated_walls = concat (map merge_collinear_segments wall_groups);
             thickness_walls = calculate_wall_thickness_from_groups consolidated_walls
         in apply_structural_focus thickness_walls))"

section \<open>NoiseFilter\<close>

definition wall_distance :: "'a wall_scheme \<Rightarrow> 'b wall_scheme \<Rightarrow> real" where
  "wall_distance wall1 wall2 =
     (let mid1_x = (real_of_int (fst (start wall1)) + real_of_int (fst (end_pt wall1))) / 2;
          mid1_y = (real_of_int (snd (start wall1)) + real_of_int (snd (end_pt wall1))) / 2;
          mid2_x = (real_of_int (fst (start wall2)) + real_of_int (fst (end_pt wall2))) / 2;
          mid2_y = (real_of_int (snd (start wall2)) + real_of_int (snd (end_pt wall2))) / 2
      in sqrt ((mid2_x - mid1_x)\<^sup>2 + (mid2_y - mid1_y)\<^sup>2))"

text \<open>
  \<^verbatim>\<open>remove_text_clusters\<close>: \<open>cluster_scan\<close> is the inner loop over
  \<^verbatim>\<open>enumerate(walls[i+1:], i+1)\<close>, \<open>cluster_loop\<close> the outer loop over
  \<^verbatim>\<open>enumerate(walls)\<close>, whose remaining part is exactly that slice.
\<close>

fun cluster_scan ::
  "'a wall_scheme \<Rightarrow> (nat \<times> 'a wall_scheme) list \<Rightarrow>
   'a wall_scheme list \<times> nat set \<Rightarrow> 'a wall_scheme list \<times> nat set" where
  "cluster_scan wall1 [] st = st"
| "cluster_scan wall1 ((j, wall2) # rest) (cluster, used) =
     (if j \<in> used then cluster_scan wall1 rest (cluster, used)
      else if \<bar>angle wall1 - angle wall2\<bar> < 10 \<and> wall_distance wall1 wall2 < 30
        then cluster_scan wall1 rest (cluster @ [wall2], insert j used)
        else cluster_scan wall1 rest (cluster, used))"

fun cluster_loop ::
  "(nat \<times> 'a wall_scheme) list \<Rightarrow> 'a wall_scheme list list \<times> nat set \<Rightarrow>
   'a wall_scheme list list" where
  "cluster_loop [] (clusters, used) = clusters"
| "cluster_loop ((i, wall1) # rest) (clusters, used) =
     (if i \<in> used then cluster_loop rest (clusters, used)
      else
        (case cluster_scan wall1 rest ([wall1], insert i used) of
           (cluster, used') \<Rightarrow> cluster_loop rest (clusters @ [cluster], used')))"

text \<open>
  The number of entries of an enumerated list whose index is not yet in \<open>used\<close>: the
  walls the clustering loops can still pick up.
\<close>

definition count_unused :: "(nat \<times> 'a) list \<Rightarrow> nat set \<Rightarrow> nat" where
  "count_unused es used = length (filter (\<lambda>p. fst p \<notin> used) es)"

definition keep_from_cluster :: "'a wall_scheme list \<Rightarrow> 'a wall_scheme list" where
  "keep_from_cluster cluster =
     (if length cluster \<le> 4 then cluster else take 2 (sort_descending length_w cluster))"

definition remove_text_clusters :: "'a wall_scheme list \<Rightarrow> 'a wall_scheme list" where
  "remove_text_clusters walls =
     (if length walls < 3 then walls
      else concat (map keep_from_cluster (cluster_loop (enumerate 0 walls) ([], {}))))"

text \<open>
  \<^verbatim>\<open>is_in_text_area\<close> runs OpenCV's Canny detector on the region around the wall's
  midpoint. The detector is outside the repository: \<open>canny_edge_count g (x1, y1, x2, y2)\<close>
  stands for \<^verbatim>\<open>np.sum(cv2.Canny(gray[y1:y2, x1:x2], 50, 150) > 0)\<close>, and everything
  around it is the source's.
\<close>

type_synonym canny = "gray_image \<Rightarrow> int \<times> int \<times> int \<times> int \<Rightarrow> nat"

definition is_in_text_area :: "canny \<Rightarrow> 'a wall_scheme \<Rightarrow> gray_image \<Rightarrow> bool" where
  "is_in_text_area canny_edge_count w gray_img =
     (let mid_x = py_int ((real_of_int (fst (start w)) + real_of_int (fst (end_pt w))) / 2);
          mid_y = py_int ((real_of_int (snd (start w)) + real_of_int (snd (end_pt w))) / 2);
          region_size = 50;
          x1 = max 0 (mid_x - region_size);
          y1 = max 0 (mid_y - region_size);
          x2 = min (int (shape1 gray_img)) (mid_x + region_size);
          y2 = min (int (shape0 gray_img)) (mid_y + region_size)
      in if x2 \<le> x1 \<or> y2 \<le> y1 then False
         else
           (let edge_density =
                  real (canny_edge_count gray_img (x1, y1, x2, y2)) /
                  real_of_int ((y2 - y1) * (x2 - x1))
            in edge_density > 0.15))"

definition apply_intelligent_filtering ::
  "canny \<Rightarrow> 'a wall_scheme list \<Rightarrow> gray_image \<Rightarrow> 'a wall_scheme list" where
  "apply_intelligent_filtering canny_edge_count candidate_walls gray_img =
     (let clustered_walls = remove_text_clusters candidate_walls;
          quality_walls =
            filter (\<lambda>w. (confidence w > 0.8 \<and> length_w w > 120) \<or> length_w w > 200)
              clustered_walls;
          filtered_walls =
            filter (\<lambda>w. \<not> is_in_text_area canny_edge_count w gray_img) quality_walls
      in sort_descending (\<lambda>w. confidence w * length_w w) filtered_walls)"

text \<open>
  The wall part of \<^verbatim>\<open>detect_walls_fuzzy\<close>: \<^verbatim>\<open>walls = []\<close>, and when
  \<^verbatim>\<open>cv2.HoughLinesP\<close> returned lines, steps 1 to 3 in the order of the source.
\<close>

definition detect_walls ::
  "canny \<Rightarrow> gray_image \<Rightarrow> (int \<times> int \<times> int \<times> int) list option \<Rightarrow> wall list" where
  "detect_walls canny_edge_count gray lines =
     (case lines of
        None \<Rightarrow> []
      | Some ls \<Rightarrow>
          (let candidates = classify_lines gray ls;
               consolidated_walls = consolidate_wall_segments candidates;
               filtered_walls = apply_intelligent_filtering canny_edge_count consolidated_walls gray
           in filtered_walls))"

text \<open>
  The value \<^verbatim>\<open>max_walls\<close> that \<^verbatim>\<open>apply_structural_focus\<close> computes during a run of the
  pipeline on the Hough lines \<open>ls\<close>: the adaptive cap of that run.
\<close>

definition adaptive_cap :: "gray_image \<Rightarrow> (int \<times> int \<times> int \<times> int) list \<Rightarrow> nat" where
  "adaptive_cap gray ls =
     calculate_realistic_wall_count
       (structural_walls
          (calculate_wall_thickness_from_groups
             (concat (map merge_collinear_segments
                (group_parallel_lines (classify_lines gray ls))))))"

text \<open>
  The stage order the specification states: noise filter first, then scoring and
  capping, on the consolidated (grouped and merged) walls.
\<close>

definition spec_detect_walls ::
  "canny \<Rightarrow> gray_image \<Rightarrow> (int \<times> int \<times> int \<times> int) list option \<Rightarrow> wall list" where
  "spec_detect_walls canny_edge_count gray lines =
     (case lines of
        None \<Rightarrow> []
      | Some ls \<Rightarrow>
          apply_structural_focus
            (apply_intelligent_filtering canny_edge_count
               (concat (map merge_collinear_segments
                  (group_parallel_lines (classify_lines gray ls)))) gray))"

text \<open>
  The noise filter as the specification describes it: cluster removal and text-area
  removal only.
\<close>

definition spec_noise_filter :: "canny \<Rightarrow> wall list \<Rightarrow> gray_image \<Rightarrow> wall list" where
  "spec_noise_filter canny walls gray_img =
     filter (\<lambda>w. \<not> is_in_text_area canny w gray_img) (remove_text_clusters walls)"

section \<open>Openings\<close>

text \<open>
  A door, window or arch dictionary. \<open>kind\<close> is the key \<^verbatim>\<open>type\<close>, \<open>conf\<close> the key
  \<^verbatim>\<open>confidence\<close> (every opening the source builds has one, so \<^verbatim>\<open>get('confidence', 0)\<close>
  never takes its default), \<open>bounding_walls\<close> the keys \<^verbatim>\<open>wall1\<close>, \<^verbatim>\<open>wall2\<close>. Keys that
  only the OpenCV-driven detectors set (radius, swing direction) live in the record's
  extension.
\<close>

record opening_item =
  kind :: string
  position :: "real \<times> real"
  width :: "real option"
  height :: "real option"
  conf :: real
  bounding_walls :: "wall list"

subsection \<open>Distance of a point to a wall\<close>

text \<open>
  \<^verbatim>\<open>point_to_line_distance\<close> returns a float that may be \<^verbatim>\<open>float('inf')\<close>; \<open>float_less\<close>
  is the comparison \<^verbatim>\<open>wall_dist < bound\<close> on such a value.
\<close>

datatype pyfloat = Finite real | PosInf

fun float_less :: "pyfloat \<Rightarrow> real \<Rightarrow> bool" where
  "float_less (Finite d) bound = (d < bound)"
| "float_less PosInf bound = False"

definition point_to_line_distance :: "int \<Rightarrow> int \<Rightarrow> 'a wall_scheme \<Rightarrow> pyfloat" where
  "point_to_line_distance px py w =
     (case (start w, end_pt w) of
        ((x1, y1), (x2, y2)) \<Rightarrow>
          (let A = y2 - y1;
               B = x1 - x2;
               C = x2 * y1 - x1 * y2
           in if A = 0 \<and> B = 0 then PosInf
              else Finite (real_of_int \<bar>A * px + B * py + C\<bar> / sqrt (real_of_int (A * A + B * B)))))"

text \<open>
  The class body defines \<^verbatim>\<open>is_near_wall\<close> twice. \<open>is_near_wall_first\<close> is the definition
  at line 676 (fixed 20 pixels), \<open>is_near_wall\<close> the one at line 700 (parameter
  \<^verbatim>\<open>tolerance\<close>), \<open>is_on_wall\<close> the one between them.
\<close>

fun is_near_wall_first :: "int \<times> int \<Rightarrow> 'a wall_scheme list \<Rightarrow> bool" where
  "is_near_wall_first point [] = False"
| "is_near_wall_first point (w # walls) =
     (if float_less (point_to_line_distance (fst point) (snd point) w) 20 then True
      else is_near_wall_first point walls)"

fun is_on_wall :: "int \<times> int \<Rightarrow> 'a wall_scheme list \<Rightarrow> bool" where
  "is_on_wall point [] = False"
| "is_on_wall point (w # walls) =
     (if float_less (point_to_line_distance (fst point) (snd point) w) 10 then True
      else is_on_wall point walls)"

fun is_near_wall :: "int \<times> int \<Rightarrow> 'a wall_scheme list \<Rightarrow> real \<Rightarrow> bool" where
  "is_near_wall point [] tolerance = False"
| "is_near_wall point (w # walls) tolerance =
     (if float_less (point_to_line_distance (fst point) (snd point) w) tolerance then True
      else is_near_wall point walls tolerance)"

subsection \<open>Method lookup in the class\<close>

text \<open>
  A Python class body is executed top to bottom and each \<^verbatim>\<open>def\<close> binds its name in the
  class namespace, replacing an earlier binding of the same name. \<open>class_body\<close> lists
  the three \<^verbatim>\<open>def\<close>s in source order, each as a function of the positional arguments
  and of the keyword argument \<^verbatim>\<open>tolerance\<close> when the caller passes one; a \<^verbatim>\<open>def\<close>
  without that parameter raises \<^verbatim>\<open>TypeError\<close> on it, and the default of the third is
  15. \<open>call_method\<close> is \<^verbatim>\<open>self.name(point, walls[, tolerance=t])\<close>.
\<close>

datatype py_exception = ValueError string | TypeError string | AttributeError string

type_synonym 'a py_method = "int \<times> int \<Rightarrow> 'a wall_scheme list \<Rightarrow> real option \<Rightarrow> py_exception + bool"

definition class_body :: "(string \<times> 'a py_method) list" where
  "class_body =
     [(''is_near_wall'',
         \<lambda>point walls tolerance.
            (case tolerance of
               None \<Rightarrow> Inr (is_near_wall_first point walls)
             | Some t \<Rightarrow> Inl (TypeError ''unexpected keyword argument tolerance''))),
      (''is_on_wall'',
         \<lambda>point walls tolerance.
            (case tolerance of
               None \<Rightarrow> Inr (is_on_wall point walls)
             | Some t \<Rightarrow> Inl (TypeError ''unexpected keyword argument tolerance''))),
      (''is_near_wall'',
         \<lambda>point walls tolerance.
            Inr (is_near_wall point walls (case tolerance of None \<Rightarrow> 15 | Some t \<Rightarrow> t)))]"

definition class_namespace :: "string \<rightharpoonup> 'a py_method" where
  "class_namespace = foldl (\<lambda>ns (name, m). ns(name \<mapsto> m)) Map.empty class_body"

definition call_method ::
  "string \<Rightarrow> int \<times> int \<Rightarrow> 'a wall_scheme list \<Rightarrow> real option \<Rightarrow> py_exception + bool" where
  "call_method name point walls tolerance =
     (case class_namespace name of
        None \<Rightarrow> Inl (AttributeError name)
      | Some m \<Rightarrow> m point walls tolerance)"

subsection \<open>Door symbols\<close>

text \<open>
  \<^verbatim>\<open>find_door_symbols\<close> loops over the contours OpenCV finds in the thresholded image.
  A contour enters the model as \<open>(area, x, y, w, h)\<close>: its \<^verbatim>\<open>cv2.contourArea\<close> and its
  \<^verbatim>\<open>cv2.boundingRect\<close>. The proximity check is the call
  \<^verbatim>\<open>self.is_near_wall([x + w//2, y + h//2], walls)\<close>, without a tolerance; an exception
  of the call leaves the loop and the function.
\<close>

type_synonym contour = "real \<times> int \<times> int \<times> int \<times> int"

fun find_door_symbols :: "contour list \<Rightarrow> wall list \<Rightarrow> py_exception + opening_item list" where
  "find_door_symbols [] walls = Inr []"
| "find_door_symbols ((area, x, y, w, h) # contours) walls =
     (if 200 < area \<and> area < 2000
      then
        (let aspect_ratio = (if w > 0 then real_of_int h / real_of_int w else 0)
         in if 1.5 < aspect_ratio \<and> aspect_ratio < 3.0
            then
              (case call_method ''is_near_wall'' (x + w div 2, y + h div 2) walls None of
                 Inl e \<Rightarrow> Inl e
               | Inr near \<Rightarrow>
                   (case find_door_symbols contours walls of
                      Inl e \<Rightarrow> Inl e
                    | Inr doors \<Rightarrow>
                        Inr ((if near
                              then [\<lparr>kind = ''symbol'',
                                     position = (real_of_int (x + w div 2), real_of_int (y + h div 2)),
                                     width = Some (real_of_int w), height = Some (real_of_int h),
                                     conf = 0.6, bounding_walls = []\<rparr>]
                              else []) @ doors)))
            else find_door_symbols contours walls)
      else find_door_symbols contours walls)"

subsection \<open>Openings between parallel walls\<close>

definition are_walls_parallel :: "'a wall_scheme \<Rightarrow> 'a wall_scheme \<Rightarrow> bool" where
  "are_walls_parallel wall1 wall2 =
     (let angle_diff = \<bar>angle wall1 - angle wall2\<bar> in angle_diff < 15 \<or> angle_diff > 165)"

definition get_opening_center :: "'a wall_scheme \<Rightarrow> 'a wall_scheme \<Rightarrow> real \<times> real" where
  "get_opening_center wall1 wall2 =
     (let w1_center = ((real_of_int (fst (start wall1)) + real_of_int (fst (end_pt wall1))) / 2,
                       (real_of_int (snd (start wall1)) + real_of_int (snd (end_pt wall1))) / 2);
          w2_center = ((real_of_int (fst (start wall2)) + real_of_int (fst (end_pt wall2))) / 2,
                       (real_of_int (snd (start wall2)) + real_of_int (snd (end_pt wall2))) / 2)
      in ((fst w1_center + fst w2_center) / 2, (snd w1_center + snd w2_center) / 2))"

text \<open>
  \<^verbatim>\<open>looks_like_door_opening\<close>: the mean intensity of the 20 by 20 region around the
  centre, clipped to the image, exceeds 200.
\<close>

definition looks_like_door_opening :: "wall \<Rightarrow> wall \<Rightarrow> gray_image \<Rightarrow> bool" where
  "looks_like_door_opening wall1 wall2 gray_img =
     (let center = get_opening_center wall1 wall2;
          x = py_int (fst center);
          y = py_int (snd center)
      in if 0 \<le> x \<and> x < int (shape1 gray_img) \<and> 0 \<le> y \<and> y < int (shape0 gray_img)
         then
           (let rows = [nat (max 0 (y - 10)) ..< nat (min (int (shape0 gray_img)) (y + 10))];
                cols = [nat (max 0 (x - 10)) ..< nat (min (int (shape1 gray_img)) (x + 10))];
                region = concat (map (\<lambda>r. map (\<lambda>c. pixel gray_img r c) cols) rows)
            in if length region > 0
               then real (sum_list region) / real (length region) > 200
               else False)
         else False)"

text \<open>
  The nested loops of \<^verbatim>\<open>find_door_openings\<close> and \<^verbatim>\<open>find_wide_openings\<close> visit every
  pair \<^verbatim>\<open>walls[i]\<close>, \<^verbatim>\<open>walls[j]\<close> with \<open>i < j\<close>, in this order.
\<close>

fun find_door_openings :: "wall list \<Rightarrow> gray_image \<Rightarrow> opening_item list" where
  "find_door_openings [] gray_img = []"
| "find_door_openings (wall1 # rest) gray_img =
     concat (map (\<lambda>wall2.
        if are_walls_parallel wall1 wall2
        then (let gap_size = wall_distance wall1 wall2
              in if 50 < gap_size \<and> gap_size < 100
                 then (if looks_like_door_opening wall1 wall2 gray_img
                       then [\<lparr>kind = ''opening'', position = get_opening_center wall1 wall2,
                              width = Some gap_size, height = None, conf = 0.7,
                              bounding_walls = [wall1, wall2]\<rparr>]
                       else [])
                 else [])
        else []) rest)
     @ find_door_openings rest gray_img"

fun find_wide_openings :: "wall list \<Rightarrow> gray_image \<Rightarrow> opening_item list" where
  "find_wide_openings [] gray_img = []"
| "find_wide_openings (wall1 # rest) gray_img =
     concat (map (\<lambda>wall2.
        if are_walls_parallel wall1 wall2
        then (let gap_size = wall_distance wall1 wall2
              in if 150 < gap_size \<and> gap_size < 250
                 then [\<lparr>kind = ''wide_opening'', position = get_opening_center wall1 wall2,
                        width = Some gap_size, height = None, conf = 0.6,
                        bounding_walls = [wall1, wall2]\<rparr>]
                 else [])
        else []) rest)
     @ find_wide_openings rest gray_img"

definition find_curved_arches :: "gray_image \<Rightarrow> opening_item list" where
  "find_curved_arches gray_img = []"

subsection \<open>Deduplication\<close>

definition opening_distance :: "'a opening_item_scheme \<Rightarrow> 'a opening_item_scheme \<Rightarrow> real" where
  "opening_distance door existing =
     sqrt ((fst (position door) - fst (position existing))\<^sup>2 +
           (snd (position door) - snd (position existing))\<^sup>2)"

text \<open>
  One iteration of the loop \<^verbatim>\<open>for door in doors\<close> of \<^verbatim>\<open>filter_duplicate_doors\<close>. The inner
  loop stops at the first \<^verbatim>\<open>existing\<close> closer than 30 pixels (\<^verbatim>\<open>break\<close>);
  \<^verbatim>\<open>filtered.remove(existing)\<close> removes the first element equal to it.
\<close>

definition dedup_step :: "'a opening_item_scheme list \<Rightarrow> 'a opening_item_scheme \<Rightarrow> 'a opening_item_scheme list" where
  "dedup_step filtered door =
     (case List.find (\<lambda>existing. opening_distance door existing < 30) filtered of
        None \<Rightarrow> filtered @ [door]
      | Some existing \<Rightarrow>
          if conf door > conf existing then remove1 existing filtered @ [door] else filtered)"

definition filter_duplicate_doors :: "'a opening_item_scheme list \<Rightarrow> 'a opening_item_scheme list" where
  "filter_duplicate_doors doors =
     (if length doors \<le> 1 then doors else foldl dedup_step [] doors)"

definition filter_duplicate_windows :: "'a opening_item_scheme list \<Rightarrow> 'a opening_item_scheme list" where
  "filter_duplicate_windows windows = filter_duplicate_doors windows"

definition filter_duplicate_arches :: "'a opening_item_scheme list \<Rightarrow> 'a opening_item_scheme list" where
  "filter_duplicate_arches arches = filter_duplicate_doors arches"

subsection \<open>The three detectors\<close>

text \<open>
  What the detector takes from OpenCV and NumPy, per image: the decoded grayscale buffer
  (\<^verbatim>\<open>cv2.imread\<close> and \<^verbatim>\<open>cv2.cvtColor\<close>; \<open>None\<close> when \<^verbatim>\<open>imread\<close> returns \<^verbatim>\<open>None\<close>), the
  contrast \<^verbatim>\<open>np.std(gray)\<close>, the Hough lines for given parameters (\<open>None\<close> when
  \<^verbatim>\<open>HoughLinesP\<close> finds nothing), the Canny edge count of a region, the doors of
  \<^verbatim>\<open>find_door_swings\<close>, the contours of the thresholded image, and the windows of
  \<^verbatim>\<open>find_window_rectangles\<close> and \<^verbatim>\<open>find_window_parallel_lines\<close>.
\<close>

record hough_params =
  threshold :: nat
  minLineLength :: nat
  maxLineGap :: nat

record opencv =
  imread_gray :: "string \<Rightarrow> gray_image option"
  np_std :: "gray_image \<Rightarrow> real"
  hough_lines_p :: "gray_image \<Rightarrow> hough_params \<Rightarrow> (int \<times> int \<times> int \<times> int) list option"
  canny_edge_count :: canny
  find_door_swings :: "gray_image \<Rightarrow> opening_item list"
  threshold_contours :: "gray_image \<Rightarrow> contour list"
  find_window_rectangles :: "gray_image \<Rightarrow> wall list \<Rightarrow> opening_item list"
  find_window_parallel_lines :: "gray_image \<Rightarrow> wall list \<Rightarrow> opening_item list"

text \<open>
  \<^verbatim>\<open>detect_doors\<close>: the list \<^verbatim>\<open>doors\<close> is extended detector by detector inside a
  \<^verbatim>\<open>try\<close>; when a call raises, the handler prints and the function returns what
  \<^verbatim>\<open>doors\<close> holds at that moment.
\<close>

definition detect_doors :: "opencv \<Rightarrow> gray_image \<Rightarrow> wall list \<Rightarrow> opening_item list" where
  "detect_doors cv gray_img walls =
     (let doors = [] @ find_door_openings walls gray_img;
          doors = doors @ find_door_swings cv gray_img
      in case find_door_symbols (threshold_contours cv gray_img) walls of
           Inl e \<Rightarrow> doors
         | Inr door_symbols \<Rightarrow>
             (let doors = filter_duplicate_doors (doors @ door_symbols)
              in if length doors > 20 then take 20 (sort_descending conf doors) else doors))"

definition detect_windows :: "opencv \<Rightarrow> gray_image \<Rightarrow> wall list \<Rightarrow> opening_item list" where
  "detect_windows cv gray_img walls =
     filter_duplicate_windows
       ([] @ find_window_rectangles cv gray_img walls @ find_window_parallel_lines cv gray_img walls)"

definition detect_arches :: "gray_image \<Rightarrow> wall list \<Rightarrow> opening_item list" where
  "detect_arches gray_img walls =
     (let arches = filter_duplicate_arches
                     ([] @ find_curved_arches gray_img @ find_wide_openings walls gray_img)
      in if length arches > 15 then take 15 (sort_descending conf arches) else arches)"

section \<open>The pipeline entry point\<close>

text \<open>
  The dictionary \<^verbatim>\<open>detect_walls_fuzzy\<close> returns is a map from its keys to values.
\<close>

datatype result_value =
    Bool bool
  | Str string
  | Walls "wall list"
  | Openings "opening_item list"
  | ImageStats nat nat real
  | Totals nat nat nat nat

type_synonym result = "string \<rightharpoonup> result_value"

definition select_hough_params :: "real \<Rightarrow> hough_params" where
  "select_hough_params contrast =
     (if contrast < 30 then \<lparr>threshold = 50, minLineLength = 30, maxLineGap = 20\<rparr>
      else if contrast > 100 then \<lparr>threshold = 150, minLineLength = 80, maxLineGap = 5\<rparr>
      else \<lparr>threshold = 100, minLineLength = 50, maxLineGap = 10\<rparr>)"

text \<open>
  The body of the \<^verbatim>\<open>try\<close>: \<open>Inl\<close> is the exception that reaches the handler, \<open>Inr\<close>
  the dictionary returned at the end of the body.
\<close>

definition try_body :: "opencv \<Rightarrow> string \<Rightarrow> py_exception + result" where
  "try_body cv image_path =
     (case imread_gray cv image_path of
        None \<Rightarrow> Inl (ValueError (''Could not read image: '' @ image_path))
      | Some gray \<Rightarrow>
          (let contrast = np_std cv gray;
               lines = hough_lines_p cv gray (select_hough_params contrast);
               walls = detect_walls (canny_edge_count cv) gray lines;
               doors = detect_doors cv gray walls;
               windows = detect_windows cv gray walls;
               arches = detect_arches gray walls
           in Inr [''success'' \<mapsto> Bool True,
                   ''walls'' \<mapsto> Walls walls,
                   ''doors'' \<mapsto> Openings doors,
                   ''windows'' \<mapsto> Openings windows,
                   ''arches'' \<mapsto> Openings arches,
                   ''method'' \<mapsto> Str ''fuzzy_canny_complete'',
                   ''image_stats'' \<mapsto> ImageStats (shape1 gray) (shape0 gray) contrast,
                   ''totals'' \<mapsto> Totals (length walls) (length doors) (length windows)
                                    (length arches)]))"

fun str_of_exception :: "py_exception \<Rightarrow> string" where
  "str_of_exception (ValueError msg) = msg"
| "str_of_exception (TypeError msg) = msg"
| "str_of_exception (AttributeError msg) = msg"

definition detect_walls_fuzzy :: "opencv \<Rightarrow> string \<Rightarrow> result" where
  "detect_walls_fuzzy cv image_path =
     (case try_body cv image_path of
        Inr r \<Rightarrow> r
      | Inl e \<Rightarrow> [''success'' \<mapsto> Bool False,
                  ''error'' \<mapsto> Str (str_of_exception e),
                  ''walls'' \<mapsto> Walls []])"

section \<open>Example data\<close>

text \<open>A raw wall with the given end points, length and angle, for concrete evaluations.\<close>

definition example_wall :: "int \<times> int \<Rightarrow> int \<times> int \<Rightarrow> real \<Rightarrow> real \<Rightarrow> wall" where
  "example_wall s e len ang =
     \<lparr>start = s, end_pt = e, length_w = len, angle = ang, wall_type = ''horizontal'',
      confidence = 1, is_sketchy = False, thickness = 6, source = ''fuzzy_canny'',
      structural_score = None\<rparr>"

text \<open>
  An opening of the given kind, position and confidence; an unreadable image path; and
  a blank (all white) 400 by 400 image in which OpenCV finds no line, circle or contour.
\<close>

definition example_opening :: "string \<Rightarrow> real \<times> real \<Rightarrow> real \<Rightarrow> opening_item" where
  "example_opening k pos c =
     \<lparr>kind = k, position = pos, width = None, height = None, conf = c, bounding_walls = []\<rparr>"

definition blank_image :: gray_image where
  "blank_image = \<lparr>shape0 = 400, shape1 = 400, pixel = \<lambda>y x. 255\<rparr>"

definition unreadable_cv :: opencv where
  "unreadable_cv =
     \<lparr>imread_gray = \<lambda>path. None, np_std = \<lambda>g. 0, hough_lines_p = \<lambda>g p. None,
      canny_edge_count = \<lambda>g r. 0, find_door_swings = \<lambda>g. [], threshold_contours = \<lambda>g. [],
      find_window_rectangles = \<lambda>g ws. [], find_window_parallel_lines = \<lambda>g ws. []\<rparr>"

definition blank_cv :: opencv where
  "blank_cv = unreadable_cv\<lparr>imread_gray := \<lambda>path. Some blank_image\<rparr>"

text \<open>
  A dark 400 by 400 image, a Canny stand-in that finds no edge, five horizontal Hough
  lines (one of length 160 and four of length 130, the midpoints of the last four
  25 pixels from the midpoint of the first), and the candidate wall that such a line
  yields on the dark image, with an optional structural score.
\<close>

definition dark_image :: gray_image where
  "dark_image = \<lparr>shape0 = 400, shape1 = 400, pixel = \<lambda>y x. 0\<rparr>"

definition no_edges :: canny where
  "no_edges = (\<lambda>gray_img region. 0)"

definition five_lines :: "(int \<times> int \<times> int \<times> int) list" where
  "five_lines =
     [(135, 200, 265, 200), (120, 225, 280, 225), (160, 200, 290, 200),
      (135, 175, 265, 175), (110, 200, 240, 200)]"

definition raw_wall :: "int \<times> int \<Rightarrow> int \<times> int \<Rightarrow> real \<Rightarrow> real option \<Rightarrow> wall" where
  "raw_wall s e len sc =
     \<lparr>start = s, end_pt = e, length_w = len, angle = 0, wall_type = ''horizontal'',
      confidence = 1, is_sketchy = False, thickness = 6, source = ''fuzzy_canny'',
      structural_score = sc\<rparr>"

text \<open>
  Twenty-one door swings 40 pixels apart, one of them a swing curve of lower
  confidence, and an OpenCV stand-in that reports them on any image.
\<close>

definition swing_row :: "opening_item list" where
  "swing_row =
     [example_opening ''swing'' (0, 0) (4/5),
      example_opening ''swing'' (40, 0) (4/5),
      example_opening ''swing'' (80, 0) (4/5),
      example_opening ''swing'' (120, 0) (4/5),
      example_opening ''swing'' (160, 0) (4/5),
      example_opening ''swing_curve'' (200, 0) (7/10),
      example_opening ''swing'' (240, 0) (4/5),
      example_opening ''swing'' (280, 0) (4/5),
      example_opening ''swing'' (320, 0) (4/5),
      example_opening ''swing'' (360, 0) (4/5),
      example_opening ''swing'' (400, 0) (4/5),
      example_opening ''swing'' (440, 0) (4/5),
      example_opening ''swing'' (480, 0) (4/5),
      example_opening ''swing'' (520, 0) (4/5),
      example_opening ''swing'' (560, 0) (4/5),
      example_opening ''swing'' (600, 0) (4/5),
      example_opening ''swing'' (640, 0) (4/5),
      example_opening ''swing'' (680, 0) (4/5),
      example_opening ''swing'' (720, 0) (4/5),
      example_opening ''swing'' (760, 0) (4/5),
      example_opening ''swing'' (800, 0) (4/5)]"

definition crowded_cv :: opencv where
  "crowded_cv = blank_cv\<lparr>find_door_swings := \<lambda>g. swing_row\<rparr>"

section \<open>Evaluation helpers\<close>

lemma sqrt_less_numeral_iff: "0 \<le> c \<Longrightarrow> sqrt x < c \<longleftrightarrow> x < c\<^sup>2"
  by (metis real_sqrt_less_iff real_sqrt_abs abs_of_nonneg)

lemma numeral_less_sqrt_iff: "0 \<le> c \<Longrightarrow> c < sqrt x \<longleftrightarrow> c\<^sup>2 < x"
  by (metis real_sqrt_less_iff real_sqrt_abs abs_of_nonneg)

lemma sqrt_90000: "sqrt 90000 = 300"
  using real_sqrt_abs [of 300] by simp

section \<open>Near-wall checks: helper lemmas\<close>

lemma is_near_wall_iff:
  "is_near_wall point walls tolerance \<longleftrightarrow>
     (\<exists>w \<in> set walls. float_less (point_to_line_distance (fst point) (snd point) w) tolerance)"
  by (induction walls) auto

lemma is_near_wall_first_iff:
  "is_near_wall_first point walls \<longleftrightarrow>
     (\<exists>w \<in> set walls. float_less (point_to_line_distance (fst point) (snd point) w) 20)"
  by (induction walls) auto

lemma is_on_wall_iff:
  "is_on_wall point walls \<longleftrightarrow>
     (\<exists>w \<in> set walls. float_less (point_to_line_distance (fst point) (snd point) w) 10)"
  by (induction walls) auto

lemma class_namespace_is_near_wall:
  "(class_namespace :: string \<rightharpoonup> 'a py_method) ''is_near_wall'' =
     Some (\<lambda>point walls tolerance.
        Inr (is_near_wall point walls (case tolerance of None \<Rightarrow> 15 | Some t \<Rightarrow> t)))"
  by (simp add: class_namespace_def class_body_def)

lemma call_is_near_wall:
  "call_method ''is_near_wall'' point walls tolerance =
     Inr (is_near_wall point walls (case tolerance of None \<Rightarrow> 15 | Some t \<Rightarrow> t))"
  by (simp add: call_method_def class_namespace_is_near_wall)

lemma find_door_symbols_total: "\<exists>doors. find_door_symbols contours walls = Inr doors"
proof (induction contours)
  case Nil
  show ?case by simp
next
  case (Cons c contours)
  obtain area x y w h where c: "c = (area, x, y, w, h)" by (cases c)
  from Cons obtain ds where ds: "find_door_symbols contours walls = Inr ds" by blast
  show ?case unfolding c by (simp add: Let_def call_is_near_wall ds)
qed

lemma degenerate_distance:
  "start w = end_pt w \<Longrightarrow> point_to_line_distance px py w = PosInf"
  by (cases "start w"; cases "end_pt w") (simp add: point_to_line_distance_def)

lemma is_near_wall_filter:
  "is_near_wall point walls tolerance =
     is_near_wall point (filter (\<lambda>w. start w \<noteq> end_pt w) walls) tolerance"
  by (induction walls) (auto simp: degenerate_distance)

lemma is_near_wall_first_filter:
  "is_near_wall_first point walls =
     is_near_wall_first point (filter (\<lambda>w. start w \<noteq> end_pt w) walls)"
  by (induction walls) (auto simp: degenerate_distance)

lemma is_on_wall_filter:
  "is_on_wall point walls = is_on_wall point (filter (\<lambda>w. start w \<noteq> end_pt w) walls)"
  by (induction walls) (auto simp: degenerate_distance)

lemma nondegenerate_divisor:
  assumes "(x1, y1) \<noteq> (x2, y2)"
  shows "0 < sqrt (real_of_int ((y2 - y1) * (y2 - y1) + (x1 - x2) * (x1 - x2)))"
proof -
  have "y2 - y1 \<noteq> 0 \<or> x1 - x2 \<noteq> 0" using assms by auto
  then have "0 < (y2 - y1) * (y2 - y1) + (x1 - x2) * (x1 - x2)"
    by (metis add_pos_nonneg add_nonneg_pos zero_le_square not_sum_squares_lt_zero
        linorder_neqE_linordered_idom mult_neg_neg mult_pos_pos)
  then have "0 < real_of_int ((y2 - y1) * (y2 - y1) + (x1 - x2) * (x1 - x2))"
    by (simp only: of_int_0_less_iff)
  then show ?thesis by (simp only: real_sqrt_gt_0_iff)
qed

section \<open>Entry point: helper lemmas\<close>

lemma try_body_success:
  assumes "try_body cv image_path = Inr r"
  shows "r ''success'' = Some (Bool True) \<and>
         (\<exists>walls doors windows arches.
            r ''walls'' = Some (Walls walls) \<and> r ''doors'' = Some (Openings doors) \<and>
            r ''windows'' = Some (Openings windows) \<and> r ''arches'' = Some (Openings arches))"
proof (cases "imread_gray cv image_path")
  case None
  with assms show ?thesis by (simp add: try_body_def)
next
  case (Some gray)
  with assms show ?thesis by (auto simp: try_body_def Let_def)
qed

lemma blank_result:
  "try_body blank_cv ''blank.png'' =
     Inr [''success'' \<mapsto> Bool True, ''walls'' \<mapsto> Walls [], ''doors'' \<mapsto> Openings [],
          ''windows'' \<mapsto> Openings [], ''arches'' \<mapsto> Openings [],
          ''method'' \<mapsto> Str ''fuzzy_canny_complete'', ''image_stats'' \<mapsto> ImageStats 400 400 0,
          ''totals'' \<mapsto> Totals 0 0 0 0]"
  by (simp add: try_body_def blank_cv_def unreadable_cv_def blank_image_def detect_walls_def
      detect_doors_def detect_windows_def detect_arches_def select_hough_params_def
      filter_duplicate_doors_def filter_duplicate_windows_def filter_duplicate_arches_def
      find_curved_arches_def)

section \<open>Wall pipeline: helper lemmas\<close>

subsection \<open>Grouping keeps lines and loses none it started\<close>

lemma scan_candidates_set:
  "scan_candidates e js (g, u, a) = (g', u', a') \<Longrightarrow>
     set g \<subseteq> set g' \<and> set g' \<subseteq> set g \<union> snd ` set js"
proof (induction js arbitrary: g u a)
  case Nil
  then show ?case by simp
next
  case (Cons p js)
  obtain j c where p: "p = (j, c)" by (cases p)
  show ?case
  proof (cases "j \<notin> u \<and> are_parallel_and_close e c")
    case True
    with Cons.prems p have "scan_candidates e js (g @ [c], insert j u, True) = (g', u', a')"
      by simp
    from Cons.IH [OF this] p show ?thesis by auto
  next
    case False
    with Cons.prems p have "scan_candidates e js (g, u, a) = (g', u', a')"
      by (auto split: if_splits)
    from Cons.IH [OF this] show ?thesis by auto
  qed
qed

lemma snd_set_enumerate: "snd ` set (enumerate n xs) = set xs"
  by (metis map_snd_enumerate set_map)

lemma grow_pass_set:
  "set (fst st) \<subseteq> set (fst (grow_pass lines k st)) \<and>
   set (fst (grow_pass lines k st)) \<subseteq> set (fst st) \<union> set lines"
proof (induction lines k st rule: grow_pass.induct)
  case (1 lines k grp used added)
  show ?case
  proof (cases "k < length grp")
    case True
    obtain g1 u1 a1 where s:
      "scan_candidates (grp ! k) (enumerate 0 lines) (grp, used, added) = (g1, u1, a1)"
      by (cases "scan_candidates (grp ! k) (enumerate 0 lines) (grp, used, added)") auto
    have r: "grow_pass lines k (grp, used, added) = grow_pass lines (Suc k) (g1, u1, a1)"
      using True s by (simp add: grow_pass.simps [of lines k])
    from "1.IH" [OF True] s
    have ih: "set g1 \<subseteq> set (fst (grow_pass lines (Suc k) (g1, u1, a1))) \<and>
              set (fst (grow_pass lines (Suc k) (g1, u1, a1))) \<subseteq> set g1 \<union> set lines"
      by simp
    from scan_candidates_set [OF s]
    have sc: "set grp \<subseteq> set g1" "set g1 \<subseteq> set grp \<union> set lines"
      by (simp_all add: snd_set_enumerate)
    show ?thesis unfolding r using ih sc by auto
  next
    case False
    then show ?thesis by (simp add: grow_pass.simps [of lines k])
  qed
qed

lemma grow_group_set:
  "set (fst st) \<subseteq> set (fst (grow_group lines st)) \<and>
   set (fst (grow_group lines st)) \<subseteq> set (fst st) \<union> set lines"
proof (induction lines st rule: grow_group.induct)
  case (1 lines grp used)
  obtain g1 u1 a1 where p: "grow_pass lines 0 (grp, used, False) = (g1, u1, a1)"
    by (cases "grow_pass lines 0 (grp, used, False)") auto
  from grow_pass_set [of "(grp, used, False)" lines 0] p
  have gp: "set grp \<subseteq> set g1" "set g1 \<subseteq> set grp \<union> set lines" by simp_all
  show ?case
  proof (cases a1)
    case True
    have r: "grow_group lines (grp, used) = grow_group lines (g1, u1)"
      using p True by (simp add: grow_group.simps [of lines grp used])
    from "1.IH" [OF p [symmetric] refl True]
    have "set g1 \<subseteq> set (fst (grow_group lines (g1, u1))) \<and>
          set (fst (grow_group lines (g1, u1))) \<subseteq> set g1 \<union> set lines"
      by simp
    with gp show ?thesis unfolding r by auto
  next
    case False
    have r: "grow_group lines (grp, used) = (g1, u1)"
      using p False by (simp add: grow_group.simps [of lines grp used])
    from gp show ?thesis unfolding r by auto
  qed
qed

lemma group_loop_members:
  assumes "\<forall>g \<in> set groups. g \<noteq> [] \<and> set g \<subseteq> S"
    and "snd ` set es \<subseteq> S" and "set lines \<subseteq> S"
  shows "\<forall>g \<in> set (group_loop lines es (groups, used)). g \<noteq> [] \<and> set g \<subseteq> S"
  using assms
proof (induction es arbitrary: groups used)
  case Nil
  then show ?case by simp
next
  case (Cons p es)
  obtain i line1 where p: "p = (i, line1)" by (cases p)
  have es: "snd ` set es \<subseteq> S" and l1: "line1 \<in> S" using Cons.prems(2) p by auto
  show ?case
  proof (cases "i \<in> used")
    case True
    with Cons.IH [OF Cons.prems(1) es Cons.prems(3)] p show ?thesis by simp
  next
    case False
    obtain grp u' where g: "grow_group lines ([line1], insert i used) = (grp, u')"
      by (cases "grow_group lines ([line1], insert i used)") auto
    from grow_group_set [of "([line1], insert i used)" lines] g
    have m: "line1 \<in> set grp" "set grp \<subseteq> insert line1 (set lines)" by auto
    then have ne: "grp \<noteq> []" and sub: "set grp \<subseteq> S" using l1 Cons.prems(3) by auto
    have "\<forall>g \<in> set (groups @ [grp]). g \<noteq> [] \<and> set g \<subseteq> S"
      using Cons.prems(1) ne sub by auto
    from Cons.IH [OF this es Cons.prems(3)] False g ne p show ?thesis by simp
  qed
qed

lemma group_loop_length:
  "length groups \<le> length (group_loop lines es (groups, used))"
proof (induction es arbitrary: groups used)
  case Nil
  then show ?case by simp
next
  case (Cons p es)
  obtain i line1 where p: "p = (i, line1)" by (cases p)
  show ?case
  proof (cases "i \<in> used")
    case True
    with Cons.IH [of groups used] p show ?thesis by simp
  next
    case False
    obtain grp u' where g: "grow_group lines ([line1], insert i used) = (grp, u')"
      by (cases "grow_group lines ([line1], insert i used)") auto
    from Cons.IH [of "if length grp > 0 then groups @ [grp] else groups" u']
    have "length (if length grp > 0 then groups @ [grp] else groups)
          \<le> length (group_loop lines (p # es) (groups, used))"
      using False g p by simp
    then show ?thesis by (auto split: if_splits)
  qed
qed

lemma group_parallel_lines_members:
  "\<forall>g \<in> set (group_parallel_lines lines). g \<noteq> [] \<and> set g \<subseteq> set lines"
  unfolding group_parallel_lines_def
  by (rule group_loop_members) (simp_all add: snd_set_enumerate)

lemma group_parallel_lines_nonempty:
  assumes "lines \<noteq> []"
  shows "group_parallel_lines lines \<noteq> []"
proof -
  obtain l ls where l: "lines = l # ls" using assms by (cases lines) auto
  obtain grp u' where g: "grow_group lines ([l], {0}) = (grp, u')"
    by (cases "grow_group lines ([l], {0})") auto
  from grow_group_set [of "([l], {0})" lines] g have "l \<in> set grp" by auto
  then have ne: "length grp > 0" by auto
  have "group_parallel_lines lines = group_loop lines (enumerate (Suc 0) ls) ([grp], u')"
    using l g ne by (simp add: group_parallel_lines_def)
  with group_loop_length [of "[grp]" lines "enumerate (Suc 0) ls" u']
  show ?thesis by auto
qed

subsection \<open>Cluster removal keeps a sublist-sized subset\<close>

lemma count_unused_mono: "u \<subseteq> u' \<Longrightarrow> count_unused es u' \<le> count_unused es u"
proof -
  assume s: "u \<subseteq> u'"
  have "filter (\<lambda>p. fst p \<notin> u') es = filter (\<lambda>p. fst p \<notin> u') (filter (\<lambda>p. fst p \<notin> u) es)"
    using s by (auto intro: filter_cong)
  then show ?thesis
    unfolding count_unused_def by (metis length_filter_le)
qed

lemma cluster_scan_props:
  "cluster_scan w es (c, u) = (c', u') \<Longrightarrow>
     u \<subseteq> u' \<and> set c \<subseteq> set c' \<and> set c' \<subseteq> set c \<union> snd ` set es \<and>
     length c' + count_unused es u' \<le> length c + count_unused es u"
proof (induction es arbitrary: c u)
  case Nil
  then show ?case by simp
next
  case (Cons p es)
  obtain j w2 where p: "p = (j, w2)" by (cases p)
  show ?case
  proof (cases "j \<in> u")
    case True
    with Cons.prems p have r: "cluster_scan w es (c, u) = (c', u')" by simp
    from Cons.IH [OF r] True p show ?thesis by (auto simp: count_unused_def)
  next
    case False
    show ?thesis
    proof (cases "\<bar>angle w - angle w2\<bar> < 10 \<and> wall_distance w w2 < 30")
      case True
      with False Cons.prems p have r: "cluster_scan w es (c @ [w2], insert j u) = (c', u')"
        by simp
      from Cons.IH [OF r] have ih: "insert j u \<subseteq> u'" "set (c @ [w2]) \<subseteq> set c'"
        "set c' \<subseteq> set (c @ [w2]) \<union> snd ` set es"
        "length c' + count_unused es u' \<le> length (c @ [w2]) + count_unused es (insert j u)"
        by auto
      have a: "count_unused (p # es) u' = count_unused es u'"
        using ih(1) p by (auto simp: count_unused_def)
      have b: "count_unused (p # es) u = Suc (count_unused es u)"
        using False p by (simp add: count_unused_def)
      have c: "count_unused es (insert j u) \<le> count_unused es u"
        by (rule count_unused_mono) auto
      from ih a b c p show ?thesis by auto
    next
      case nc: False
      with False Cons.prems p have r: "cluster_scan w es (c, u) = (c', u')"
        by (auto split: if_splits)
      have a: "count_unused (p # es) u' \<le> Suc (count_unused es u')"
        by (simp add: count_unused_def)
      have b: "count_unused (p # es) u = Suc (count_unused es u)"
        using False p by (simp add: count_unused_def)
      from Cons.IH [OF r] a b show ?thesis by auto
    qed
  qed
qed

lemma cluster_loop_props:
  "(\<forall>c \<in> set (cluster_loop es (cs, u)). c \<in> set cs \<or> set c \<subseteq> snd ` set es) \<and>
   length (concat (cluster_loop es (cs, u))) \<le> length (concat cs) + count_unused es u"
proof (induction es arbitrary: cs u)
  case Nil
  then show ?case by simp
next
  case (Cons p es)
  obtain i w1 where p: "p = (i, w1)" by (cases p)
  show ?case
  proof (cases "i \<in> u")
    case True
    have "count_unused (p # es) u = count_unused es u"
      using True p by (simp add: count_unused_def)
    with Cons.IH [of cs u] True p show ?thesis by auto
  next
    case False
    obtain c' u' where s: "cluster_scan w1 es ([w1], insert i u) = (c', u')"
      by (cases "cluster_scan w1 es ([w1], insert i u)") auto
    from cluster_scan_props [OF s]
    have sp: "set c' \<subseteq> insert w1 (snd ` set es)"
      "length c' + count_unused es u' \<le> Suc (count_unused es (insert i u))"
      by auto
    have m: "count_unused es (insert i u) \<le> count_unused es u"
      by (rule count_unused_mono) auto
    have b: "count_unused (p # es) u = Suc (count_unused es u)"
      using False p by (simp add: count_unused_def)
    have r: "cluster_loop (p # es) (cs, u) = cluster_loop es (cs @ [c'], u')"
      using False s p by simp
    from Cons.IH [of "cs @ [c']" u'] sp m b p show ?thesis unfolding r by auto
  qed
qed

lemma sort_descending_set [simp]: "set (sort_descending key xs) = set xs"
  by (simp add: sort_descending_def)

lemma sort_descending_length [simp]: "length (sort_descending key xs) = length xs"
  by (simp add: sort_descending_def)

lemma keep_from_cluster_props:
  "set (keep_from_cluster c) \<subseteq> set c \<and> length (keep_from_cluster c) \<le> length c"
proof (cases "length c \<le> 4")
  case True
  then show ?thesis by (simp add: keep_from_cluster_def)
next
  case False
  have "set (take 2 (sort_descending length_w c)) \<subseteq> set (sort_descending length_w c)"
    by (rule set_take_subset)
  with False show ?thesis by (simp add: keep_from_cluster_def)
qed

lemma concat_map_keep_length:
  "length (concat (map keep_from_cluster cs)) \<le> length (concat cs)"
proof (induction cs)
  case Nil
  show ?case by simp
next
  case (Cons c cs)
  with keep_from_cluster_props [of c] show ?case by simp
qed

lemma remove_text_clusters_props:
  "set (remove_text_clusters walls) \<subseteq> set walls \<and>
   length (remove_text_clusters walls) \<le> length walls"
proof (cases "length walls < 3")
  case True
  then show ?thesis by (simp add: remove_text_clusters_def)
next
  case False
  let ?cs = "cluster_loop (enumerate 0 walls) ([], {})"
  from cluster_loop_props [of "enumerate 0 walls" "[]" "{}"]
  have a: "\<forall>c \<in> set ?cs. set c \<subseteq> set walls"
    and b: "length (concat ?cs) \<le> length walls"
    by (simp_all add: snd_set_enumerate count_unused_def)
  have "set (concat (map keep_from_cluster ?cs)) \<subseteq> set walls"
    using a keep_from_cluster_props by fastforce
  moreover have "length (concat (map keep_from_cluster ?cs)) \<le> length walls"
    using concat_map_keep_length [of ?cs] b by simp
  ultimately show ?thesis using False by (simp add: remove_text_clusters_def)
qed

lemma apply_intelligent_filtering_props:
  "set (apply_intelligent_filtering canny ws gray) \<subseteq> set ws \<and>
   length (apply_intelligent_filtering canny ws gray) \<le> length ws"
proof -
  let ?q = "filter (\<lambda>w. (confidence w > 0.8 \<and> length_w w > 120) \<or> length_w w > 200)
              (remove_text_clusters ws)"
  have "length (filter (\<lambda>w. \<not> is_in_text_area canny w gray) ?q) \<le> length ?q"
    by (rule length_filter_le)
  also have "\<dots> \<le> length (remove_text_clusters ws)" by (rule length_filter_le)
  also have "\<dots> \<le> length ws" using remove_text_clusters_props [of ws] by simp
  finally have l: "length (filter (\<lambda>w. \<not> is_in_text_area canny w gray) ?q) \<le> length ws" .
  have "set (filter (\<lambda>w. \<not> is_in_text_area canny w gray) ?q) \<subseteq> set ws"
    using remove_text_clusters_props [of ws] by auto
  with l show ?thesis by (simp add: apply_intelligent_filtering_def Let_def)
qed


subsection \<open>Thickness and consolidation\<close>

lemma thickness_scan_lower:
  "\<forall>off \<in> set offs. 3 \<le> off \<Longrightarrow> 6 \<le> thickness_scan gray_img mx my pdx pdy offs"
proof (induction offs)
  case Nil
  show ?case by simp
next
  case (Cons off offs)
  then have "3 \<le> off" and ih: "6 \<le> thickness_scan gray_img mx my pdx pdy offs" by simp_all
  then have "6 \<le> real_of_int (off * 2)" by simp
  with ih show ?case by (simp add: Let_def)
qed

lemma offsets_from_three: "\<forall>off \<in> set [3..19]. (3::int) \<le> off"
  by simp

lemma clamp_thickness_range: "6 \<le> t \<Longrightarrow> 6 \<le> min (max t 3) (25::real) \<and> min (max t 3) 25 \<le> 25"
  by simp

lemma estimate_thickness_range:
  "6 \<le> estimate_thickness x1 y1 x2 y2 gray_img \<and> estimate_thickness x1 y1 x2 y2 gray_img \<le> 25"
proof (cases "sqrt (real_of_int ((x2 - x1)\<^sup>2 + (y2 - y1)\<^sup>2)) = 0")
  case True
  then show ?thesis by (simp only: estimate_thickness_def Let_def if_True) simp
next
  case False
  define t where "t = thickness_scan gray_img ((x1 + x2) div 2) ((y1 + y2) div 2)
      (- (real_of_int (y2 - y1) / sqrt (real_of_int ((x2 - x1)\<^sup>2 + (y2 - y1)\<^sup>2))))
      (real_of_int (x2 - x1) / sqrt (real_of_int ((x2 - x1)\<^sup>2 + (y2 - y1)\<^sup>2))) [3..19]"
  have "6 \<le> t" unfolding t_def by (rule thickness_scan_lower [OF offsets_from_three])
  from clamp_thickness_range [OF this]
  have r: "6 \<le> min (max t 3) 25 \<and> min (max t 3) 25 \<le> 25" .
  have "estimate_thickness x1 y1 x2 y2 gray_img = min (max t 3) 25"
    using False by (simp only: estimate_thickness_def Let_def if_False t_def)
  with r show ?thesis by (simp only:)
qed

lemma foldl_max_Max: "foldl max (d::real) ds = Max (set (d # ds))"
proof (induction ds arbitrary: d)
  case Nil
  show ?case by simp
next
  case (Cons x xs)
  have "foldl max d (x # xs) = Max (set (max d x # xs))" using Cons [of "max d x"] by simp
  also have "\<dots> = Max (set (d # x # xs))"
  proof (cases xs)
    case Nil
    then show ?thesis by (simp add: max.commute)
  next
    case (Cons y ys)
    then have ne: "set xs \<noteq> {}" by simp
    have "Max (insert (max d x) (set xs)) = max (max d x) (Max (set xs))"
      using ne by simp
    also have "\<dots> = max d (max x (Max (set xs)))" by (simp add: max.assoc)
    also have "\<dots> = Max (insert d (insert x (set xs)))" using ne by simp
    finally show ?thesis by simp
  qed
  finally show ?case .
qed

lemma pairwise_distances_set:
  "set (pairwise_distances g) =
     {line_to_line_distance (g ! i) (g ! j) | i j. i < j \<and> j < length g}"
proof (induction g)
  case Nil
  show ?case by simp
next
  case (Cons l ls)
  have "{line_to_line_distance ((l # ls) ! i) ((l # ls) ! j) | i j. i < j \<and> j < length (l # ls)} =
        line_to_line_distance l ` set ls \<union>
        {line_to_line_distance (ls ! i) (ls ! j) | i j. i < j \<and> j < length ls}"
    (is "?L = ?A \<union> ?B")
  proof (intro equalityI subsetI)
    fix d assume "d \<in> ?L"
    then obtain i j where ij: "i < j" "j < length (l # ls)"
      and d: "d = line_to_line_distance ((l # ls) ! i) ((l # ls) ! j)" by blast
    from ij obtain j' where j': "j = Suc j'" "j' < length ls" by (cases j) auto
    show "d \<in> ?A \<union> ?B"
    proof (cases i)
      case 0
      with d j' show ?thesis by auto
    next
      case (Suc i')
      with ij j' have "i' < j'" by simp
      with d j' Suc show ?thesis by auto
    qed
  next
    fix d assume "d \<in> ?A \<union> ?B"
    then show "d \<in> ?L"
    proof
      assume "d \<in> ?A"
      then obtain x where "x \<in> set ls" "d = line_to_line_distance l x" by blast
      then obtain k where k: "k < length ls" "ls ! k = x" by (auto simp: in_set_conv_nth)
      then have "d = line_to_line_distance ((l # ls) ! 0) ((l # ls) ! Suc k)"
        using \<open>d = line_to_line_distance l x\<close> by simp
      moreover have "0 < Suc k" "Suc k < length (l # ls)" using k by simp_all
      ultimately show ?thesis by blast
    next
      assume "d \<in> ?B"
      then obtain i j where ij: "i < j" "j < length ls"
        and d: "d = line_to_line_distance (ls ! i) (ls ! j)" by blast
      then have "d = line_to_line_distance ((l # ls) ! Suc i) ((l # ls) ! Suc j)" by simp
      moreover have "Suc i < Suc j" "Suc j < length (l # ls)" using ij by simp_all
      ultimately show ?thesis by blast
    qed
  qed
  with Cons show ?case by simp
qed

lemma pairwise_distances_nonempty: "2 \<le> length g \<Longrightarrow> pairwise_distances g \<noteq> []"
  by (cases g; cases "tl g") auto

lemma calculate_group_thickness_Max:
  assumes "2 \<le> length g"
  shows "calculate_group_thickness g =
           min (max (Max (set (pairwise_distances g))) 4) 25"
proof -
  from pairwise_distances_nonempty [OF assms]
  obtain d ds where p: "pairwise_distances g = d # ds" by (cases "pairwise_distances g") auto
  with assms show ?thesis
    by (simp add: calculate_group_thickness_def foldl_max_Max del: foldl.simps)
qed

lemma calculate_group_thickness_range:
  "4 \<le> calculate_group_thickness g \<and> calculate_group_thickness g \<le> 25"
  by (simp add: calculate_group_thickness_def split: list.splits)

lemma merge_collinear_segments_many:
  assumes "2 \<le> length g"
  shows "\<exists>w. merge_collinear_segments g = [w] \<and> thickness w = calculate_group_thickness g \<and>
             source w = ''consolidated'' \<and>
             (\<exists>m \<in> set g. length_w w = length_w m \<and> confidence w = min 1 (confidence m * 1.2))"
proof -
  from assms obtain a b rest where g: "g = a # b # rest"
    by (cases g; cases "tl g") auto
  have "max_by_length best ls \<in> set (best # ls)" for best :: wall and ls
    by (induction ls arbitrary: best) auto
  then have "max_by_length a (b # rest) \<in> set g" unfolding g by blast
  then show ?thesis unfolding g by (auto simp: Let_def)
qed

lemma merge_collinear_segments_thickness:
  assumes "\<forall>w \<in> set g. 3 \<le> thickness w \<and> thickness w \<le> 25"
  shows "\<forall>w \<in> set (merge_collinear_segments g). 3 \<le> thickness w \<and> thickness w \<le> 25"
proof (cases "2 \<le> length g")
  case True
  from merge_collinear_segments_many [OF True] calculate_group_thickness_range [of g]
  show ?thesis by auto
next
  case False
  then have "g = [] \<or> (\<exists>l. g = [l])" by (cases g; cases "tl g") auto
  with assms show ?thesis by auto
qed

lemma classify_lines_thickness:
  "\<forall>w \<in> set (classify_lines gray ls). 3 \<le> thickness w \<and> thickness w \<le> 25"
proof
  fix w assume "w \<in> set (classify_lines gray ls)"
  then obtain l where "candidate_wall gray l = Some w"
    by (auto simp: classify_lines_def List.map_filter_def)
  moreover obtain x1 y1 x2 y2 where "l = (x1, y1, x2, y2)" by (cases l)
  ultimately have "thickness w = estimate_thickness x1 y1 x2 y2 gray"
    by (auto simp: Let_def split: prod.splits if_splits)
  with estimate_thickness_range [of x1 y1 x2 y2 gray]
  show "3 \<le> thickness w \<and> thickness w \<le> 25" by simp
qed

lemma structural_walls_members:
  "w \<in> set (structural_walls walls) \<Longrightarrow>
     \<exists>v \<in> set walls. w = v\<lparr>structural_score := Some (calculate_structural_importance v)\<rparr> \<and>
                       calculate_structural_importance v > 0.3"
  by (auto simp: structural_walls_def score_of_def)

lemma apply_structural_focus_subset:
  "set (apply_structural_focus walls) \<subseteq> set (structural_walls walls)"
  by (auto simp: apply_structural_focus_def Let_def dest: in_set_takeD)

lemma merged_thickness:
  assumes "\<forall>w \<in> set segs. 3 \<le> thickness w \<and> thickness w \<le> 25"
  shows "\<forall>w \<in> set (concat (map merge_collinear_segments (group_parallel_lines segs))).
           3 \<le> thickness w \<and> thickness w \<le> 25"
proof
  fix w assume "w \<in> set (concat (map merge_collinear_segments (group_parallel_lines segs)))"
  then obtain g where g: "g \<in> set (group_parallel_lines segs)"
    and w: "w \<in> set (merge_collinear_segments g)" by auto
  from group_parallel_lines_members g have "set g \<subseteq> set segs" by blast
  with assms have "\<forall>w \<in> set g. 3 \<le> thickness w \<and> thickness w \<le> 25" by blast
  from merge_collinear_segments_thickness [OF this] w
  show "3 \<le> thickness w \<and> thickness w \<le> 25" by blast
qed

lemma consolidate_wall_segments_eq:
  "consolidate_wall_segments segs =
     apply_structural_focus (concat (map merge_collinear_segments (group_parallel_lines segs)))"
proof (cases "segs = []")
  case True
  then show ?thesis
    by (simp add: consolidate_wall_segments_def group_parallel_lines_def
        apply_structural_focus_def)
next
  case False
  then show ?thesis
    by (simp add: consolidate_wall_segments_def calculate_wall_thickness_from_groups_def)
qed

lemma detect_walls_thickness:
  "\<forall>w \<in> set (detect_walls canny gray lines). 3 \<le> thickness w \<and> thickness w \<le> 25"
proof (cases lines)
  case None
  then show ?thesis by (simp add: detect_walls_def)
next
  case (Some ls)
  let ?m = "concat (map merge_collinear_segments (group_parallel_lines (classify_lines gray ls)))"
  show ?thesis
  proof
    fix w assume "w \<in> set (detect_walls canny gray lines)"
    then have "w \<in> set (apply_structural_focus ?m)"
      using Some apply_intelligent_filtering_props [of canny "apply_structural_focus ?m" gray]
      by (auto simp: detect_walls_def consolidate_wall_segments_eq)
    then have "w \<in> set (structural_walls ?m)" using apply_structural_focus_subset by blast
    from structural_walls_members [OF this]
    obtain v where v: "v \<in> set ?m"
      and wv: "w = v\<lparr>structural_score := Some (calculate_structural_importance v)\<rparr>"
      by blast
    from wv have "thickness w = thickness v" by simp
    with v merged_thickness [OF classify_lines_thickness, of gray ls]
    show "3 \<le> thickness w \<and> thickness w \<le> 25" by auto
  qed
qed


section \<open>Evaluation on the example lines\<close>

lemma thickness_scan_dark:
  "\<forall>y x. pixel gray_img y x \<le> 200 \<Longrightarrow> thickness_scan gray_img mx my pdx pdy offs = 6"
  by (induction offs) (simp_all add: Let_def not_less [symmetric])

lemma estimate_thickness_dark:
  assumes "\<forall>y x. pixel gray_img y x \<le> 200"
  shows "estimate_thickness x1 y1 x2 y2 gray_img = 6"
  by (simp only: estimate_thickness_def Let_def thickness_scan_dark [OF assms]) simp

lemma sqrt_square_num: "0 \<le> c \<Longrightarrow> x = c\<^sup>2 \<Longrightarrow> sqrt x = c"
  by simp

lemma sqrt_16900: "sqrt 16900 = 130" by (rule sqrt_square_num) simp_all
lemma sqrt_25600: "sqrt 25600 = 160" by (rule sqrt_square_num) simp_all

lemma classify_angle_zero: "classify_angle_fuzzy 0 = (True, False, False, 1)"
  by (simp add: classify_angle_fuzzy_def)

lemma classify_five_lines:
  "classify_lines dark_image five_lines =
     [raw_wall (135, 200) (265, 200) 130 None, raw_wall (120, 225) (280, 225) 160 None,
      raw_wall (160, 200) (290, 200) 130 None, raw_wall (135, 175) (265, 175) 130 None,
      raw_wall (110, 200) (240, 200) 130 None]"
proof -
  have d: "\<forall>y x. pixel dark_image y x \<le> 200" by (simp add: dark_image_def)
  show ?thesis
    by (simp add: classify_lines_def five_lines_def List.map_filter_def arctan2_def
        classify_angle_zero estimate_thickness_dark [OF d] raw_wall_def
        sqrt_16900 sqrt_25600)
qed

lemma close_eval:
  "are_parallel_and_close (raw_wall s1 e1 l1 sc1) (raw_wall s2 e2 l2 sc2) \<longleftrightarrow>
     1 < line_to_line_distance (raw_wall s1 e1 l1 sc1) (raw_wall s2 e2 l2 sc2) \<and>
     line_to_line_distance (raw_wall s1 e1 l1 sc1) (raw_wall s2 e2 l2 sc2)
       < (if (l1 + l2) / 2 > 500 then 50 else if (l1 + l2) / 2 > 200 then 30 else 15)"
  by (simp add: are_parallel_and_close_def raw_wall_def Let_def)

lemma distance_eval:
  "line_to_line_distance (raw_wall (a, b) (c, d) l1 sc1) (raw_wall (a', b') (c', d') l2 sc2) =
     sqrt (((real_of_int a' + real_of_int c') / 2 - (real_of_int a + real_of_int c) / 2)\<^sup>2 +
           ((real_of_int b' + real_of_int d') / 2 - (real_of_int b + real_of_int d) / 2)\<^sup>2)"
  by (simp add: line_to_line_distance_def raw_wall_def)

lemma wall_distance_eval:
  "wall_distance (raw_wall (a, b) (c, d) l1 sc1) (raw_wall (a', b') (c', d') l2 sc2) =
     sqrt (((real_of_int a' + real_of_int c') / 2 - (real_of_int a + real_of_int c) / 2)\<^sup>2 +
           ((real_of_int b' + real_of_int d') / 2 - (real_of_int b + real_of_int d) / 2)\<^sup>2)"
  by (simp add: wall_distance_def raw_wall_def)

lemma group_five_lines:
  "group_parallel_lines
     [raw_wall (135, 200) (265, 200) 130 None, raw_wall (120, 225) (280, 225) 160 None,
      raw_wall (160, 200) (290, 200) 130 None, raw_wall (135, 175) (265, 175) 130 None,
      raw_wall (110, 200) (240, 200) 130 None] =
     [[raw_wall (135, 200) (265, 200) 130 None], [raw_wall (120, 225) (280, 225) 160 None],
      [raw_wall (160, 200) (290, 200) 130 None], [raw_wall (135, 175) (265, 175) 130 None],
      [raw_wall (110, 200) (240, 200) 130 None]]"
  by (simp add: group_parallel_lines_def grow_group.simps grow_pass.simps close_eval
      distance_eval sqrt_less_numeral_iff)

lemma importance_eval:
  "100 < l \<Longrightarrow> l \<le> 200 \<Longrightarrow>
   calculate_structural_importance (raw_wall (a, b) (c, d) l sc) =
     (if l > 150 then 1/2 else 2/5)"
  by (simp add: calculate_structural_importance_def raw_wall_def is_perimeter_wall_def Let_def)

lemma score_update_eval:
  "(raw_wall s e l sc)\<lparr>structural_score := Some v\<rparr> = raw_wall s e l (Some v)"
  by (simp add: raw_wall_def)

lemma score_of_eval: "score_of (raw_wall s e l (Some v)) = v"
  by (simp add: score_of_def raw_wall_def)

lemma raw_wall_fields:
  "length_w (raw_wall s e l sc) = l" "confidence (raw_wall s e l sc) = 1"
  "angle (raw_wall s e l sc) = 0" "start (raw_wall s e l sc) = s" "end_pt (raw_wall s e l sc) = e"
  by (simp_all add: raw_wall_def)

lemma structural_five:
  "structural_walls
     [raw_wall (135, 200) (265, 200) 130 None, raw_wall (120, 225) (280, 225) 160 None,
      raw_wall (160, 200) (290, 200) 130 None, raw_wall (135, 175) (265, 175) 130 None,
      raw_wall (110, 200) (240, 200) 130 None] =
     [raw_wall (120, 225) (280, 225) 160 (Some (1/2)), raw_wall (135, 200) (265, 200) 130 (Some (2/5)),
      raw_wall (160, 200) (290, 200) 130 (Some (2/5)), raw_wall (135, 175) (265, 175) 130 (Some (2/5)),
      raw_wall (110, 200) (240, 200) 130 (Some (2/5))]"
  by (simp add: structural_walls_def importance_eval score_update_eval score_of_eval
      sort_descending_def)

lemma structural_two:
  "structural_walls
     [raw_wall (120, 225) (280, 225) 160 None, raw_wall (135, 200) (265, 200) 130 None] =
     [raw_wall (120, 225) (280, 225) 160 (Some (1/2)), raw_wall (135, 200) (265, 200) 130 (Some (2/5))]"
  by (simp add: structural_walls_def importance_eval score_update_eval score_of_eval
      sort_descending_def)

lemma focus_five:
  "apply_structural_focus
     [raw_wall (135, 200) (265, 200) 130 None, raw_wall (120, 225) (280, 225) 160 None,
      raw_wall (160, 200) (290, 200) 130 None, raw_wall (135, 175) (265, 175) 130 None,
      raw_wall (110, 200) (240, 200) 130 None] =
     [raw_wall (120, 225) (280, 225) 160 (Some (1/2)), raw_wall (135, 200) (265, 200) 130 (Some (2/5)),
      raw_wall (160, 200) (290, 200) 130 (Some (2/5)), raw_wall (135, 175) (265, 175) 130 (Some (2/5)),
      raw_wall (110, 200) (240, 200) 130 (Some (2/5))]"
  by (simp add: apply_structural_focus_def structural_five calculate_realistic_wall_count_def
      raw_wall_fields score_of_eval Let_def)

lemma focus_two:
  "apply_structural_focus
     [raw_wall (120, 225) (280, 225) 160 None, raw_wall (135, 200) (265, 200) 130 None] =
     [raw_wall (120, 225) (280, 225) 160 (Some (1/2)), raw_wall (135, 200) (265, 200) 130 (Some (2/5))]"
  by (simp add: apply_structural_focus_def structural_two calculate_realistic_wall_count_def
      raw_wall_fields score_of_eval Let_def)


lemma no_edges_no_text: "\<not> is_in_text_area no_edges w gray_img"
  by (simp add: is_in_text_area_def no_edges_def Let_def)

lemma clusters_scored_five:
  "cluster_loop (enumerate 0
     [raw_wall (120, 225) (280, 225) 160 (Some (1/2)), raw_wall (135, 200) (265, 200) 130 (Some (2/5)),
      raw_wall (160, 200) (290, 200) 130 (Some (2/5)), raw_wall (135, 175) (265, 175) 130 (Some (2/5)),
      raw_wall (110, 200) (240, 200) 130 (Some (2/5))]) ([], {}) =
     [[raw_wall (120, 225) (280, 225) 160 (Some (1/2)), raw_wall (135, 200) (265, 200) 130 (Some (2/5))],
      [raw_wall (160, 200) (290, 200) 130 (Some (2/5))], [raw_wall (135, 175) (265, 175) 130 (Some (2/5))],
      [raw_wall (110, 200) (240, 200) 130 (Some (2/5))]]"
  by (simp add: wall_distance_eval raw_wall_fields sqrt_less_numeral_iff)

lemma clusters_raw_five:
  "cluster_loop (enumerate 0
     [raw_wall (135, 200) (265, 200) 130 None, raw_wall (120, 225) (280, 225) 160 None,
      raw_wall (160, 200) (290, 200) 130 None, raw_wall (135, 175) (265, 175) 130 None,
      raw_wall (110, 200) (240, 200) 130 None]) ([], {}) =
     [[raw_wall (135, 200) (265, 200) 130 None, raw_wall (120, 225) (280, 225) 160 None,
      raw_wall (160, 200) (290, 200) 130 None, raw_wall (135, 175) (265, 175) 130 None,
      raw_wall (110, 200) (240, 200) 130 None]]"
  by (simp add: wall_distance_eval raw_wall_fields sqrt_less_numeral_iff)

lemma filtering_scored_five:
  "apply_intelligent_filtering no_edges
     [raw_wall (120, 225) (280, 225) 160 (Some (1/2)), raw_wall (135, 200) (265, 200) 130 (Some (2/5)),
      raw_wall (160, 200) (290, 200) 130 (Some (2/5)), raw_wall (135, 175) (265, 175) 130 (Some (2/5)),
      raw_wall (110, 200) (240, 200) 130 (Some (2/5))] dark_image =
     [raw_wall (120, 225) (280, 225) 160 (Some (1/2)), raw_wall (135, 200) (265, 200) 130 (Some (2/5)),
      raw_wall (160, 200) (290, 200) 130 (Some (2/5)), raw_wall (135, 175) (265, 175) 130 (Some (2/5)),
      raw_wall (110, 200) (240, 200) 130 (Some (2/5))]"
  by (simp add: apply_intelligent_filtering_def remove_text_clusters_def clusters_scored_five
      keep_from_cluster_def raw_wall_fields no_edges_no_text sort_descending_def Let_def
      del: enumerate_simps)

lemma filtering_raw_five:
  "apply_intelligent_filtering no_edges
     [raw_wall (135, 200) (265, 200) 130 None, raw_wall (120, 225) (280, 225) 160 None,
      raw_wall (160, 200) (290, 200) 130 None, raw_wall (135, 175) (265, 175) 130 None,
      raw_wall (110, 200) (240, 200) 130 None] dark_image =
     [raw_wall (120, 225) (280, 225) 160 None, raw_wall (135, 200) (265, 200) 130 None]"
  by (simp add: apply_intelligent_filtering_def remove_text_clusters_def clusters_raw_five
      keep_from_cluster_def raw_wall_fields no_edges_no_text sort_descending_def Let_def
      del: enumerate_simps)


lemma sqrt_64: "sqrt 64 = 8" by (rule sqrt_square_num) simp_all

lemma detect_five_lines:
  "detect_walls no_edges dark_image (Some five_lines) =
     [raw_wall (120, 225) (280, 225) 160 (Some (1/2)), raw_wall (135, 200) (265, 200) 130 (Some (2/5)),
      raw_wall (160, 200) (290, 200) 130 (Some (2/5)), raw_wall (135, 175) (265, 175) 130 (Some (2/5)),
      raw_wall (110, 200) (240, 200) 130 (Some (2/5))]"
proof -
  have ne: "[raw_wall (135, 200) (265, 200) 130 None, raw_wall (120, 225) (280, 225) 160 None,
      raw_wall (160, 200) (290, 200) 130 None, raw_wall (135, 175) (265, 175) 130 None,
      raw_wall (110, 200) (240, 200) 130 None] \<noteq> []" by simp
  have m: "concat (map merge_collinear_segments
     [[raw_wall (135, 200) (265, 200) 130 None], [raw_wall (120, 225) (280, 225) 160 None],
      [raw_wall (160, 200) (290, 200) 130 None], [raw_wall (135, 175) (265, 175) 130 None],
      [raw_wall (110, 200) (240, 200) 130 None]]) =
     [raw_wall (135, 200) (265, 200) 130 None, raw_wall (120, 225) (280, 225) 160 None,
      raw_wall (160, 200) (290, 200) 130 None, raw_wall (135, 175) (265, 175) 130 None,
      raw_wall (110, 200) (240, 200) 130 None]" by simp
  show ?thesis
    by (simp only: detect_walls_def consolidate_wall_segments_def
        calculate_wall_thickness_from_groups_def classify_five_lines group_five_lines
        option.case Let_def ne if_False m focus_five filtering_scored_five)
qed

lemma merged_five_lines:
  "concat (map merge_collinear_segments (group_parallel_lines (classify_lines dark_image five_lines))) =
     [raw_wall (135, 200) (265, 200) 130 None, raw_wall (120, 225) (280, 225) 160 None,
      raw_wall (160, 200) (290, 200) 130 None, raw_wall (135, 175) (265, 175) 130 None,
      raw_wall (110, 200) (240, 200) 130 None]"
  by (simp add: classify_five_lines group_five_lines)

lemma detect_walls_scored:
  "\<forall>w \<in> set (detect_walls canny gray lines). \<exists>s. structural_score w = Some s \<and> s > 0.3"
proof (cases lines)
  case None
  then show ?thesis by (simp add: detect_walls_def)
next
  case (Some ls)
  let ?m = "concat (map merge_collinear_segments (group_parallel_lines (classify_lines gray ls)))"
  show ?thesis
  proof
    fix w assume "w \<in> set (detect_walls canny gray lines)"
    then have "w \<in> set (apply_structural_focus ?m)"
      using Some apply_intelligent_filtering_props [of canny "apply_structural_focus ?m" gray]
      by (auto simp: detect_walls_def consolidate_wall_segments_eq)
    then have "w \<in> set (structural_walls ?m)" using apply_structural_focus_subset by blast
    from structural_walls_members [OF this]
    show "\<exists>s. structural_score w = Some s \<and> s > 0.3" by auto
  qed
qed

subsection \<open>Caps\<close>

lemma cap_by_confidence:
  fixes ds :: "'a opening_item_scheme list" and n :: nat
  defines "out \<equiv> (if length ds > n then take n (sort_descending conf ds) else ds)"
  shows "length out \<le> n \<and> mset out \<subseteq># mset ds \<and>
         (\<forall>k \<in> set out. \<forall>x \<in># mset ds - mset out. conf x \<le> conf k)"
proof (cases "length ds > n")
  case False
  then show ?thesis by (simp add: out_def)
next
  case True
  let ?s = "sort_key (\<lambda>x. - conf x) ds"
  have o: "out = take n ?s" using True by (simp add: out_def sort_descending_def)
  have ms: "mset ?s = mset ds" by simp
  have split: "mset (take n ?s) + mset (drop n ?s) = mset ds"
    by (metis append_take_drop_id mset_append ms)
  then have diff: "mset ds - mset (take n ?s) = mset (drop n ?s)"
    by (metis add_diff_cancel_left')
  have sub: "mset (take n ?s) \<subseteq># mset ds"
    by (metis split mset_subset_eq_add_left)
  have "sorted (map (\<lambda>x. - conf x) (take n ?s) @ map (\<lambda>x. - conf x) (drop n ?s))"
    by (metis append_take_drop_id map_append sorted_sort_key)
  from sorted_append [THEN iffD1, OF this]
  have "\<forall>x \<in> set (map (\<lambda>x. - conf x) (take n ?s)).
          \<forall>y \<in> set (map (\<lambda>x. - conf x) (drop n ?s)). x \<le> y" by blast
  then have ord: "\<forall>a \<in> set (take n ?s). \<forall>b \<in> set (drop n ?s). conf b \<le> conf a"
    by fastforce
  have "length (take n ?s) \<le> n" by simp
  with sub ord diff show ?thesis unfolding o by auto
qed

lemma calculate_realistic_wall_count_range:
  assumes "walls \<noteq> []"
  shows "15 \<le> calculate_realistic_wall_count walls \<and> calculate_realistic_wall_count walls \<le> 35"
proof -
  define base :: nat where "base =
     (if sum_list (map length_w walls) / real (length walls) > 400 then 35
      else if sum_list (map length_w walls) / real (length walls) > 200 then 30 else 25)"
  define cnt where "cnt = length (filter (\<lambda>w. score_of w > 0.7) walls) +
     length (filter (\<lambda>w. 0.4 < score_of w \<and> score_of w \<le> 0.7) walls) div 2"
  have "calculate_realistic_wall_count walls = max (min cnt base) 15"
    using assms by (simp only: calculate_realistic_wall_count_def Let_def base_def cnt_def if_False)
  moreover have "base \<le> 35" by (simp add: base_def)
  ultimately show ?thesis by simp
qed

lemma apply_structural_focus_length:
  "length (apply_structural_focus walls) \<le> calculate_realistic_wall_count (structural_walls walls)"
proof (cases "walls = []")
  case True
  then show ?thesis by (simp add: apply_structural_focus_def)
next
  case False
  then show ?thesis by (simp add: apply_structural_focus_def Let_def)
qed

subsection \<open>Every consolidated wall of the pipeline passes the score threshold\<close>

lemma angle_confidence_positive: "0.4 \<le> snd (snd (snd (classify_angle_fuzzy a)))"
proof -
  have m1: "0.4 \<le> max 0.5 x" for x :: real by (rule max.coboundedI1) simp
  have m2: "0.4 \<le> max 0.4 x" for x :: real by (rule max.coboundedI1) simp
  have m3: "0.4 \<le> (1.0::real)" by simp
  show ?thesis
    apply (simp only: classify_angle_fuzzy_def Let_def snd_conv)
    apply (intro conjI impI | rule m1 m2 m3 | split if_split)+
    done
qed

lemma classify_lines_props:
  assumes "w \<in> set (classify_lines gray ls)"
  shows "100 < length_w w \<and> 6 \<le> thickness w \<and> 0 < confidence w"
proof -
  from assms obtain l where c: "candidate_wall gray l = Some w"
    by (auto simp: classify_lines_def List.map_filter_def)
  obtain x1 y1 x2 y2 where l: "l = (x1, y1, x2, y2)" by (cases l)
  define ang where "ang = arctan2 (real_of_int (y2 - y1)) (real_of_int (x2 - x1)) * 180 / pi"
  obtain h v d cf where cl: "classify_angle_fuzzy ang = (h, v, d, cf)"
    by (cases "classify_angle_fuzzy ang") auto
  from angle_confidence_positive [of ang] cl have cf: "0 < cf" by simp
  from c l cl have "100 < length_w w \<and> thickness w = estimate_thickness x1 y1 x2 y2 gray \<and>
      confidence w = cf"
    by (auto simp: Let_def ang_def split: if_splits)
  with cf estimate_thickness_range [of x1 y1 x2 y2 gray] show ?thesis by simp
qed

lemma importance_sum:
  fixes w :: "'a wall_scheme"
  defines "A \<equiv> (if length_w w > 300 then 0.4 else if length_w w > 150 then 0.3
            else if length_w w > 100 then 0.2 else if length_w w > 50 then 0.1 else (0::real))"
    and "B \<equiv> (if thickness w > 15 then 0.2 else if thickness w > 8 then 0.15
            else if thickness w > 4 then 0.1 else (0::real))"
    and "C \<equiv> (if source w = ''consolidated'' then 0.25 else (0::real))"
    and "D \<equiv> (if is_perimeter_wall w then 0.2 else (0::real))"
  shows "calculate_structural_importance w = min (A + B + C + D + confidence w * 0.1) 1"
  by (simp add: calculate_structural_importance_def Let_def A_def B_def C_def D_def)

lemma importance_raw:
  assumes "100 < length_w w" and "4 < thickness w" and "0 < confidence w"
  shows "0.3 < calculate_structural_importance w"
proof -
  define A where "A = (if length_w w > 300 then 0.4 else if length_w w > 150 then 0.3
            else if length_w w > 100 then 0.2 else if length_w w > 50 then 0.1 else (0::real))"
  define B where "B = (if thickness w > 15 then 0.2 else if thickness w > 8 then 0.15
            else if thickness w > 4 then 0.1 else (0::real))"
  define C where "C = (if source w = ''consolidated'' then 0.25 else (0::real))"
  define D where "D = (if is_perimeter_wall w then 0.2 else (0::real))"
  have a: "0.2 \<le> A" using assms(1) by (simp add: A_def)
  have b: "0.1 \<le> B" using assms(2) by (simp add: B_def)
  have c: "0 \<le> C" by (simp add: C_def)
  have d: "0 \<le> D" by (simp add: D_def)
  have e: "0 < confidence w * 0.1" using assms(3) by simp
  have "calculate_structural_importance w = min (A + B + C + D + confidence w * 0.1) 1"
    unfolding A_def B_def C_def D_def by (rule importance_sum)
  moreover have "0.3 < A + B + C + D + confidence w * 0.1" using a b c d e by linarith
  ultimately show ?thesis by simp
qed

lemma importance_consolidated:
  assumes "100 < length_w w" and "source w = ''consolidated''" and "0 < confidence w"
  shows "0.3 < calculate_structural_importance w"
proof -
  define A where "A = (if length_w w > 300 then 0.4 else if length_w w > 150 then 0.3
            else if length_w w > 100 then 0.2 else if length_w w > 50 then 0.1 else (0::real))"
  define B where "B = (if thickness w > 15 then 0.2 else if thickness w > 8 then 0.15
            else if thickness w > 4 then 0.1 else (0::real))"
  define C where "C = (if source w = ''consolidated'' then 0.25 else (0::real))"
  define D where "D = (if is_perimeter_wall w then 0.2 else (0::real))"
  have a: "0.2 \<le> A" using assms(1) by (simp add: A_def)
  have b: "0 \<le> B" by (simp add: B_def)
  have c: "C = 1/4" using assms(2) by (simp add: C_def)
  have d: "0 \<le> D" by (simp add: D_def)
  have e: "0 < confidence w * 0.1" using assms(3) by simp
  have "calculate_structural_importance w = min (A + B + C + D + confidence w * 0.1) 1"
    unfolding A_def B_def C_def D_def by (rule importance_sum)
  moreover have "0.3 < A + B + C + D + confidence w * 0.1" using a b c d e by linarith
  ultimately show ?thesis by simp
qed

lemma merged_importance:
  assumes "w \<in> set (concat (map merge_collinear_segments
                      (group_parallel_lines (classify_lines gray ls))))"
  shows "0.3 < calculate_structural_importance w"
proof -
  from assms obtain g where g: "g \<in> set (group_parallel_lines (classify_lines gray ls))"
    and w: "w \<in> set (merge_collinear_segments g)" by auto
  from group_parallel_lines_members g have sub: "set g \<subseteq> set (classify_lines gray ls)" by blast
  show ?thesis
  proof (cases "2 \<le> length g")
    case True
    from merge_collinear_segments_many [OF True] w
    obtain m where m: "m \<in> set g" and p: "source w = ''consolidated''"
      "length_w w = length_w m" "confidence w = min 1 (confidence m * 1.2)"
      by auto
    from classify_lines_props [of m gray ls] m sub
    have "100 < length_w m" "0 < confidence m" by auto
    with p have "100 < length_w w" "0 < confidence w" by auto
    with p(1) show ?thesis by (intro importance_consolidated)
  next
    case False
    then have "g = [] \<or> (\<exists>l. g = [l])" by (cases g; cases "tl g") auto
    with w have "w \<in> set g" by auto
    with sub classify_lines_props [of w gray ls]
    have "100 < length_w w" "4 < thickness w" "0 < confidence w" by auto
    then show ?thesis by (intro importance_raw)
  qed
qed

lemma structural_walls_length_all:
  assumes "\<forall>w \<in> set walls. 0.3 < calculate_structural_importance w"
  shows "length (structural_walls walls) = length walls"
proof -
  have "filter (\<lambda>w. score_of w > 0.3)
          (map (\<lambda>w. w\<lparr>structural_score := Some (calculate_structural_importance w)\<rparr>) walls) =
        map (\<lambda>w. w\<lparr>structural_score := Some (calculate_structural_importance w)\<rparr>) walls"
    using assms by (auto simp: score_of_def filter_id_conv)
  then show ?thesis by (simp add: structural_walls_def)
qed

lemma merged_nonempty:
  assumes "classify_lines gray ls \<noteq> []"
  shows "concat (map merge_collinear_segments (group_parallel_lines (classify_lines gray ls))) \<noteq> []"
proof -
  from group_parallel_lines_nonempty [OF assms]
  obtain g gs where gs: "group_parallel_lines (classify_lines gray ls) = g # gs"
    by (cases "group_parallel_lines (classify_lines gray ls)") auto
  with group_parallel_lines_members [of "classify_lines gray ls"] have "g \<noteq> []" by simp
  then have "merge_collinear_segments g \<noteq> []"
    by (cases g rule: merge_collinear_segments.cases) (auto simp: Let_def)
  with gs show ?thesis by simp
qed

lemma adaptive_cap_range:
  assumes "classify_lines gray ls \<noteq> []"
  shows "15 \<le> adaptive_cap gray ls \<and> adaptive_cap gray ls \<le> 35"
proof -
  let ?m = "concat (map merge_collinear_segments (group_parallel_lines (classify_lines gray ls)))"
  have "length (structural_walls ?m) = length ?m"
  proof (rule structural_walls_length_all, rule ballI)
    fix w assume "w \<in> set ?m"
    then show "0.3 < calculate_structural_importance w" by (rule merged_importance)
  qed
  with merged_nonempty [OF assms] have "structural_walls ?m \<noteq> []" by auto
  from calculate_realistic_wall_count_range [OF this] show ?thesis
    by (simp add: adaptive_cap_def calculate_wall_thickness_from_groups_def)
qed

lemma detect_walls_length:
  "length (detect_walls canny gray (Some ls)) \<le> adaptive_cap gray ls"
proof -
  let ?m = "concat (map merge_collinear_segments (group_parallel_lines (classify_lines gray ls)))"
  have "length (detect_walls canny gray (Some ls)) \<le> length (apply_structural_focus ?m)"
    using apply_intelligent_filtering_props [of canny "apply_structural_focus ?m" gray]
    by (simp add: detect_walls_def consolidate_wall_segments_eq)
  also have "\<dots> \<le> adaptive_cap gray ls"
    using apply_structural_focus_length [of ?m]
    by (simp add: adaptive_cap_def calculate_wall_thickness_from_groups_def)
  finally show ?thesis .
qed

lemma dedup_swing_row: "filter_duplicate_doors swing_row = swing_row"
  by (simp add: swing_row_def filter_duplicate_doors_def dedup_step_def opening_distance_def
      example_opening_def sqrt_less_numeral_iff)

lemma detect_doors_crowded:
  "detect_doors crowded_cv dark_image [] =
     [example_opening ''swing'' (0, 0) (4/5),
      example_opening ''swing'' (40, 0) (4/5),
      example_opening ''swing'' (80, 0) (4/5),
      example_opening ''swing'' (120, 0) (4/5),
      example_opening ''swing'' (160, 0) (4/5),
      example_opening ''swing'' (240, 0) (4/5),
      example_opening ''swing'' (280, 0) (4/5),
      example_opening ''swing'' (320, 0) (4/5),
      example_opening ''swing'' (360, 0) (4/5),
      example_opening ''swing'' (400, 0) (4/5),
      example_opening ''swing'' (440, 0) (4/5),
      example_opening ''swing'' (480, 0) (4/5),
      example_opening ''swing'' (520, 0) (4/5),
      example_opening ''swing'' (560, 0) (4/5),
      example_opening ''swing'' (600, 0) (4/5),
      example_opening ''swing'' (640, 0) (4/5),
      example_opening ''swing'' (680, 0) (4/5),
      example_opening ''swing'' (720, 0) (4/5),
      example_opening ''swing'' (760, 0) (4/5),
      example_opening ''swing'' (800, 0) (4/5)]"
  by (simp add: detect_doors_def crowded_cv_def blank_cv_def unreadable_cv_def dedup_swing_row)
    (simp add: swing_row_def sort_descending_def example_opening_def)

lemma detect_doors_form:
  "\<exists>syms. find_door_symbols (threshold_contours cv gray) walls = Inr syms \<and>
      detect_doors cv gray walls =
        (if length (filter_duplicate_doors
                      (find_door_openings walls gray @ find_door_swings cv gray @ syms)) > 20
         then take 20 (sort_descending conf
                (filter_duplicate_doors
                   (find_door_openings walls gray @ find_door_swings cv gray @ syms)))
         else filter_duplicate_doors
                (find_door_openings walls gray @ find_door_swings cv gray @ syms))"
proof -
  from find_door_symbols_total obtain syms
    where s: "find_door_symbols (threshold_contours cv gray) walls = Inr syms" by blast
  then show ?thesis by (simp add: detect_doors_def Let_def)
qed

lemma detect_arches_form:
  "detect_arches gray walls =
     (if length (filter_duplicate_arches (find_curved_arches gray @ find_wide_openings walls gray)) > 15
      then take 15 (sort_descending conf
             (filter_duplicate_arches (find_curved_arches gray @ find_wide_openings walls gray)))
      else filter_duplicate_arches (find_curved_arches gray @ find_wide_openings walls gray))"
  by (simp add: detect_arches_def Let_def)

lemmas angle_defs = is_horizontal_def is_vertical_def is_diagonal_def angle_confidence_def
  classify_angle_fuzzy_def Let_def deviation_horizontal_def deviation_vertical_def deviation_diagonal_def

section \<open>Angle classification\<close>

text \<open>
  C5. For every angle between -180 and 180 degrees at most one of the three flags returned
  by \<^verbatim>\<open>classify_angle_fuzzy\<close> is true, and the flags are the stated bands:
  horizontal is \<open>|a| < 15\<close> or \<open>|a| > 165\<close>, vertical is \<open>75 < |a| < 105\<close>, diagonal is
  \<open>35 < |a| < 55\<close> or \<open>125 < |a| < 145\<close>.
\<close>

theorem classify_angle_exclusive:
  assumes "-180 \<le> a" and "a \<le> 180"
  shows "(is_horizontal a \<longleftrightarrow> \<bar>a\<bar> < 15 \<or> \<bar>a\<bar> > 165) \<and>
         (is_vertical a \<longleftrightarrow> 75 < \<bar>a\<bar> \<and> \<bar>a\<bar> < 105) \<and>
         (is_diagonal a \<longleftrightarrow> (35 < \<bar>a\<bar> \<and> \<bar>a\<bar> < 55) \<or> (125 < \<bar>a\<bar> \<and> \<bar>a\<bar> < 145)) \<and>
         \<not> (is_horizontal a \<and> is_vertical a) \<and>
         \<not> (is_horizontal a \<and> is_diagonal a) \<and>
         \<not> (is_vertical a \<and> is_diagonal a)"
  unfolding is_horizontal_def is_vertical_def is_diagonal_def classify_angle_fuzzy_def Let_def
  by (simp; linarith)

theorem classify_angle_exclusive_witness:
  "-180 \<le> (10::real) \<and> (10::real) \<le> 180 \<and>
   is_horizontal 10 \<and> \<not> is_vertical 10 \<and> \<not> is_diagonal 10"
  using classify_angle_exclusive [of 10]
  by (simp add: is_horizontal_def classify_angle_fuzzy_def)


text \<open>
  C3, as stated, fails. The claim reads: inside a band the confidence falls linearly from
  1.0 at the centre to the floor exactly at the band edge (\<open>spec_angle_confidence\<close>).
  The code computes \<^verbatim>\<open>max(0.5, 1.0 - deviation/15.0)\<close>, so at an angle of 10 degrees the
  confidence is already 0.5 where the claim gives 2/3, and the floor is reached at 7.5
  degrees. In the diagonal band the code computes \<^verbatim>\<open>max(0.4, 1.0 - deviation/20.0)\<close>:
  at 50 degrees it gives 0.75 where the claim gives 0.7, and at the band edge of 55
  degrees the angle is outside the band and the confidence is the default 1.0.
\<close>

theorem angle_confidence_spec_counterexample:
  "is_horizontal 10 \<and> angle_confidence 10 = 1/2 \<and> spec_angle_confidence 10 = 2/3 \<and>
   is_horizontal (15/2) \<and> angle_confidence (15/2) = 1/2 \<and>
   is_diagonal 50 \<and> angle_confidence 50 = 3/4 \<and> spec_angle_confidence 50 = 7/10 \<and>
   \<not> is_diagonal 55 \<and> angle_confidence 55 = 1"
  by (simp add: angle_defs spec_angle_confidence_def)

text \<open>
  C3, amended. For every angle in [-180, 180] inside a band the confidence is
  \<open>1 - deviation/15\<close> clamped below at 0.5 for horizontal and vertical (linear up to a
  deviation of 7.5 degrees, constant 0.5 from there to the band edge at 15 degrees), and
  \<open>1 - deviation/20\<close> for diagonal, where the deviation stays below 10 degrees, so the
  confidence stays above 0.5 and the floor 0.4 is never reached.
\<close>

theorem angle_confidence_clamped_linear:
  assumes "-180 \<le> a" and "a \<le> 180"
  shows "(is_horizontal a \<longrightarrow>
            deviation_horizontal a < 15 \<and>
            angle_confidence a =
              (if deviation_horizontal a \<le> 7.5 then 1 - deviation_horizontal a / 15 else 0.5)) \<and>
         (is_vertical a \<longrightarrow>
            deviation_vertical a < 15 \<and>
            angle_confidence a =
              (if deviation_vertical a \<le> 7.5 then 1 - deviation_vertical a / 15 else 0.5)) \<and>
         (is_diagonal a \<longrightarrow>
            deviation_diagonal a < 10 \<and>
            angle_confidence a = 1 - deviation_diagonal a / 20 \<and>
            0.5 < angle_confidence a)"
proof (intro conjI impI)
  assume h: "is_horizontal a"
  then show "deviation_horizontal a < 15"
    using assms by (auto simp: angle_defs)
  from h show "angle_confidence a =
      (if deviation_horizontal a \<le> 7.5 then 1 - deviation_horizontal a / 15 else 0.5)"
    by (auto simp: angle_defs max_def)
next
  assume v: "is_vertical a"
  then show "deviation_vertical a < 15"
    by (auto simp: angle_defs)
  from v have nh: "\<not> is_horizontal a"
    by (auto simp: angle_defs)
  from v nh show "angle_confidence a =
      (if deviation_vertical a \<le> 7.5 then 1 - deviation_vertical a / 15 else 0.5)"
    by (auto simp: angle_defs max_def)
next
  assume d: "is_diagonal a"
  then show dd: "deviation_diagonal a < 10"
    by (auto simp: angle_defs)
  from d have nh: "\<not> is_horizontal a" and nv: "\<not> is_vertical a"
    by (auto simp: angle_defs)
  from d nh nv have "angle_confidence a = max 0.4 (1 - deviation_diagonal a / 20)"
    by (auto simp: angle_defs)
  with dd show c: "angle_confidence a = 1 - deviation_diagonal a / 20"
    by (simp add: max_def)
  from c dd show "0.5 < angle_confidence a" by simp
qed

theorem angle_confidence_clamped_linear_witness:
  "is_horizontal 3 \<and> angle_confidence 3 = 4/5 \<and>
   is_horizontal 10 \<and> angle_confidence 10 = 1/2 \<and>
   is_vertical 100 \<and> deviation_vertical 100 = 10 \<and> angle_confidence 100 = 1/2 \<and>
   is_diagonal 50 \<and> angle_confidence 50 = 3/4"
  using angle_confidence_clamped_linear [of 3] angle_confidence_clamped_linear [of 10]
    angle_confidence_clamped_linear [of 100] angle_confidence_clamped_linear [of 50]
  by (simp add: angle_defs)

section \<open>The parallel-and-close predicate\<close>

text \<open>
  C6, as stated, fails. The claim gives two conditions (\<open>spec_parallel_and_close\<close>); the
  code also requires the midpoint distance to exceed 1 pixel
  (\<^verbatim>\<open>return 1 < distance < max_thickness\<close>). Two horizontal lines of length 300 whose
  midpoints are exactly 1 pixel apart satisfy the claim's conditions and are rejected by
  the code.
\<close>

theorem parallel_and_close_spec_counterexample:
  "spec_parallel_and_close (example_wall (0, 0) (300, 0) 300 0) (example_wall (0, 1) (300, 1) 300 0) \<and>
   \<not> are_parallel_and_close (example_wall (0, 0) (300, 0) 300 0) (example_wall (0, 1) (300, 1) 300 0)"
  by (simp add: spec_parallel_and_close_def are_parallel_and_close_def example_wall_def
      wrapped_angle_difference_def scale_adaptive_threshold_def line_to_line_distance_def)

text \<open>
  C6, amended. Two segments are parallel and close exactly when their angle difference
  with wraparound is at most 15 degrees and their midpoint distance is strictly between
  1 pixel and the scale-adaptive threshold (50, 30 or 15 pixels).
\<close>

theorem are_parallel_and_close_iff:
  "are_parallel_and_close line1 line2 \<longleftrightarrow>
     wrapped_angle_difference line1 line2 \<le> 15 \<and>
     1 < line_to_line_distance line1 line2 \<and>
     line_to_line_distance line1 line2 < scale_adaptive_threshold line1 line2"
  by (auto simp: are_parallel_and_close_def wrapped_angle_difference_def
      scale_adaptive_threshold_def Let_def)


text \<open>
  Two horizontal lines of length 400, 8 pixels apart, are parallel and close; the same
  lines 1 pixel apart are not.
\<close>

theorem are_parallel_and_close_iff_witness:
  "are_parallel_and_close (example_wall (0, 0) (400, 0) 400 2) (example_wall (0, 8) (400, 8) 400 2) \<and>
   \<not> are_parallel_and_close (example_wall (0, 0) (400, 0) 400 2) (example_wall (0, 1) (400, 1) 400 2)"
  using are_parallel_and_close_iff [of "example_wall (0, 0) (400, 0) 400 2"
      "example_wall (0, 8) (400, 8) 400 2"]
    are_parallel_and_close_iff [of "example_wall (0, 0) (400, 0) 400 2"
      "example_wall (0, 1) (400, 1) 400 2"]
  by (simp add: wrapped_angle_difference_def scale_adaptive_threshold_def
      line_to_line_distance_def example_wall_def sqrt_less_numeral_iff)

section \<open>Near-wall helpers\<close>

text \<open>
  C9. The class namespace binds \<^verbatim>\<open>is_near_wall\<close> to the second definition: a call without
  a tolerance judges a point near a wall when its distance to some wall is below 15
  pixels (not 20), a call with \<^verbatim>\<open>tolerance=t\<close> uses \<open>t\<close> and does not raise, and the
  proximity check of \<^verbatim>\<open>find_door_symbols\<close> on a door-sized contour is the 15-pixel
  check at the centre of its bounding rectangle.
\<close>

theorem second_is_near_wall_shadows_first:
  "call_method ''is_near_wall'' point walls None =
     Inr (\<exists>w \<in> set walls. float_less (point_to_line_distance (fst point) (snd point) w) 15) \<and>
   call_method ''is_near_wall'' point walls (Some t) =
     Inr (\<exists>w \<in> set walls. float_less (point_to_line_distance (fst point) (snd point) w) t) \<and>
   (200 < area \<and> area < 2000 \<and> 0 < w \<and> 1.5 < real_of_int h / real_of_int w \<and>
    real_of_int h / real_of_int w < 3 \<longrightarrow>
      find_door_symbols [(area, x, y, w, h)] walls =
        Inr (if \<exists>wl \<in> set walls.
                  float_less (point_to_line_distance (x + w div 2) (y + h div 2) wl) 15
             then [\<lparr>kind = ''symbol'',
                    position = (real_of_int (x + w div 2), real_of_int (y + h div 2)),
                    width = Some (real_of_int w), height = Some (real_of_int h),
                    conf = 0.6, bounding_walls = []\<rparr>]
             else []))"
  by (simp add: call_is_near_wall is_near_wall_iff Let_def)

text \<open>
  The point (10, 17) is 17 pixels from the wall from (0, 0) to (300, 0): the first
  definition would call it near, the call that the door-symbol detector makes does not.
\<close>

theorem second_is_near_wall_shadows_first_witness:
  "is_near_wall_first (10, 17) [example_wall (0, 0) (300, 0) 300 0] \<and>
   call_method ''is_near_wall'' (10, 17) [example_wall (0, 0) (300, 0) 300 0] None = Inr False \<and>
   find_door_symbols [(250, 5, 7, 10, 20)] [example_wall (0, 0) (300, 0) 300 0] = Inr []"
  using second_is_near_wall_shadows_first
    [of "(10, 17)" "[example_wall (0, 0) (300, 0) 300 0]" 0 250 10 20 5 7]
  by (simp add: example_wall_def point_to_line_distance_def sqrt_90000)

text \<open>
  C10. For a wall whose start and end coincide, \<^verbatim>\<open>point_to_line_distance\<close> returns
  infinity for every point, so none of the three checks judges a point near or on such a
  wall, and degenerate walls never change the verdict on a list of walls;
  \<^verbatim>\<open>estimate_thickness\<close> returns 6.0 for a zero-length line. For a wall whose end points
  differ the divisor \<^verbatim>\<open>sqrt(A*A + B*B)\<close> is positive, so no division by zero occurs, and
  the infinity branch is not taken: the result is the finite quotient.
\<close>

theorem degenerate_wall_guard:
  "(start w = end_pt w \<longrightarrow>
      point_to_line_distance px py w = PosInf \<and>
      \<not> is_near_wall point [w] tolerance \<and>
      \<not> is_near_wall_first point [w] \<and>
      \<not> is_on_wall point [w]) \<and>
   is_near_wall point walls tolerance =
     is_near_wall point (filter (\<lambda>w. start w \<noteq> end_pt w) walls) tolerance \<and>
   is_near_wall_first point walls =
     is_near_wall_first point (filter (\<lambda>w. start w \<noteq> end_pt w) walls) \<and>
   is_on_wall point walls = is_on_wall point (filter (\<lambda>w. start w \<noteq> end_pt w) walls) \<and>
   estimate_thickness x1 y1 x1 y1 gray_img = 6 \<and>
   (start w \<noteq> end_pt w \<longrightarrow>
      0 < sqrt (real_of_int ((snd (end_pt w) - snd (start w)) * (snd (end_pt w) - snd (start w)) +
                             (fst (start w) - fst (end_pt w)) * (fst (start w) - fst (end_pt w)))) \<and>
      point_to_line_distance px py w =
        Finite (real_of_int \<bar>(snd (end_pt w) - snd (start w)) * px +
                             (fst (start w) - fst (end_pt w)) * py +
                             (fst (end_pt w) * snd (start w) - fst (start w) * snd (end_pt w))\<bar> /
                sqrt (real_of_int ((snd (end_pt w) - snd (start w)) * (snd (end_pt w) - snd (start w)) +
                                   (fst (start w) - fst (end_pt w)) * (fst (start w) - fst (end_pt w))))))"
proof (intro conjI impI)
  assume d: "start w = end_pt w"
  show "point_to_line_distance px py w = PosInf" by (rule degenerate_distance [OF d])
  show "\<not> is_near_wall point [w] tolerance" by (simp add: degenerate_distance [OF d])
  show "\<not> is_near_wall_first point [w]" by (simp add: degenerate_distance [OF d])
  show "\<not> is_on_wall point [w]" by (simp add: degenerate_distance [OF d])
next
  show "is_near_wall point walls tolerance =
     is_near_wall point (filter (\<lambda>w. start w \<noteq> end_pt w) walls) tolerance"
    by (rule is_near_wall_filter)
  show "is_near_wall_first point walls =
     is_near_wall_first point (filter (\<lambda>w. start w \<noteq> end_pt w) walls)"
    by (rule is_near_wall_first_filter)
  show "is_on_wall point walls = is_on_wall point (filter (\<lambda>w. start w \<noteq> end_pt w) walls)"
    by (rule is_on_wall_filter)
  show "estimate_thickness x1 y1 x1 y1 gray_img = 6"
    by (simp add: estimate_thickness_def)
next
  assume n: "start w \<noteq> end_pt w"
  obtain a b c d where s: "start w = (a, b)" and e: "end_pt w = (c, d)"
    by (cases "start w"; cases "end_pt w") auto
  from n s e have ne: "(a, b) \<noteq> (c, d)" by simp
  from nondegenerate_divisor [OF ne]
  show "0 < sqrt (real_of_int ((snd (end_pt w) - snd (start w)) * (snd (end_pt w) - snd (start w)) +
                             (fst (start w) - fst (end_pt w)) * (fst (start w) - fst (end_pt w))))"
    by (simp add: s e)
  from ne have "\<not> (d - b = 0 \<and> a - c = 0)" by auto
  then show "point_to_line_distance px py w =
        Finite (real_of_int \<bar>(snd (end_pt w) - snd (start w)) * px +
                             (fst (start w) - fst (end_pt w)) * py +
                             (fst (end_pt w) * snd (start w) - fst (start w) * snd (end_pt w))\<bar> /
                sqrt (real_of_int ((snd (end_pt w) - snd (start w)) * (snd (end_pt w) - snd (start w)) +
                                   (fst (start w) - fst (end_pt w)) * (fst (start w) - fst (end_pt w)))))"
    by (simp add: point_to_line_distance_def s e Let_def)
qed

theorem degenerate_wall_guard_witness:
  "point_to_line_distance 5 5 (example_wall (5, 5) (5, 5) 0 0) = PosInf \<and>
   \<not> is_near_wall (5, 5) [example_wall (5, 5) (5, 5) 0 0] 15 \<and>
   \<not> is_on_wall (5, 5) [example_wall (5, 5) (5, 5) 0 0] \<and>
   point_to_line_distance 10 17 (example_wall (0, 0) (300, 0) 300 0) = Finite 17"
  using
    degenerate_wall_guard [where w = "example_wall (5, 5) (5, 5) 0 0" and px = 5 and py = 5
      and point = "(5, 5)" and tolerance = 15 and walls = "[]" and ?x1.0 = 0 and ?y1.0 = 0
      and gray_img = "\<lparr>shape0 = 0, shape1 = 0, pixel = \<lambda>y x. 0\<rparr>"]
    degenerate_wall_guard [where w = "example_wall (0, 0) (300, 0) 300 0" and px = 10 and py = 17
      and point = "(10, 17)" and tolerance = 15 and walls = "[]" and ?x1.0 = 0 and ?y1.0 = 0
      and gray_img = "\<lparr>shape0 = 0, shape1 = 0, pixel = \<lambda>y x. 0\<rparr>"]
  by (simp add: example_wall_def sqrt_90000 point_to_line_distance_def)


section \<open>Opening deduplication\<close>

text \<open>
  C2. The claim: applying \<^verbatim>\<open>filter_duplicate_doors\<close> to its own output changes nothing,
  and its output never holds two openings within 30 pixels of each other. The code
  breaks both on three doors on a line: two symbols 50 pixels apart and a swing arc of
  higher confidence between them, detected last. The swing replaces the first symbol
  (the first kept door within 30 pixels) without being compared with the second, so the
  output holds two doors 25 pixels apart, and a second run removes one of them.
\<close>

theorem filter_duplicate_doors_failing_input:
  "filter_duplicate_doors
     [example_opening ''symbol'' (0, 0) 0.6, example_opening ''symbol'' (50, 0) 0.6,
      example_opening ''swing'' (25, 0) 0.8] =
     [example_opening ''symbol'' (50, 0) 0.6, example_opening ''swing'' (25, 0) 0.8] \<and>
   opening_distance (example_opening ''symbol'' (50, 0) 0.6) (example_opening ''swing'' (25, 0) 0.8) < 30 \<and>
   filter_duplicate_doors
     [example_opening ''symbol'' (50, 0) 0.6, example_opening ''swing'' (25, 0) 0.8] =
     [example_opening ''swing'' (25, 0) 0.8]"
  by (simp add: filter_duplicate_doors_def dedup_step_def opening_distance_def example_opening_def
      sqrt_less_numeral_iff)

section \<open>Result of the entry point\<close>

text \<open>
  C4, as stated, fails. When the image cannot be read the handler returns a dictionary
  with the keys \<^verbatim>\<open>success\<close>, \<^verbatim>\<open>error\<close> and \<^verbatim>\<open>walls\<close> only: it has no doors, windows
  or arches collection, empty or not.
\<close>

theorem failure_result_counterexample:
  "try_body unreadable_cv ''plan.png'' = Inl (ValueError ''Could not read image: plan.png'') \<and>
   detect_walls_fuzzy unreadable_cv ''plan.png'' ''success'' = Some (Bool False) \<and>
   detect_walls_fuzzy unreadable_cv ''plan.png'' ''walls'' = Some (Walls []) \<and>
   detect_walls_fuzzy unreadable_cv ''plan.png'' ''doors'' = None \<and>
   detect_walls_fuzzy unreadable_cv ''plan.png'' ''windows'' = None \<and>
   detect_walls_fuzzy unreadable_cv ''plan.png'' ''arches'' = None"
  by (simp add: detect_walls_fuzzy_def try_body_def unreadable_cv_def)

text \<open>
  C4, amended. Whenever the body of the \<^verbatim>\<open>try\<close> raises, the result is exactly
  \<^verbatim>\<open>{success: False, error: str(e), walls: []}\<close>, with no other key; an unreadable
  image is such a case. Whenever the body returns, the result has \<^verbatim>\<open>success = True\<close>
  and the four collections walls, doors, windows and arches. Every result has a boolean
  \<^verbatim>\<open>success\<close>.
\<close>

theorem detect_walls_fuzzy_result:
  "(try_body cv image_path = Inl e \<longrightarrow>
      detect_walls_fuzzy cv image_path =
        [''success'' \<mapsto> Bool False, ''error'' \<mapsto> Str (str_of_exception e), ''walls'' \<mapsto> Walls []] \<and>
      dom (detect_walls_fuzzy cv image_path) = {''success'', ''error'', ''walls''}) \<and>
   (imread_gray cv image_path = None \<longrightarrow>
      try_body cv image_path = Inl (ValueError (''Could not read image: '' @ image_path))) \<and>
   (try_body cv image_path = Inr r \<longrightarrow>
      detect_walls_fuzzy cv image_path = r \<and>
      r ''success'' = Some (Bool True) \<and>
      (\<exists>walls doors windows arches.
         r ''walls'' = Some (Walls walls) \<and> r ''doors'' = Some (Openings doors) \<and>
         r ''windows'' = Some (Openings windows) \<and> r ''arches'' = Some (Openings arches))) \<and>
   (\<exists>b. detect_walls_fuzzy cv image_path ''success'' = Some (Bool b))"
proof (intro conjI impI)
  assume f: "try_body cv image_path = Inl e"
  then show "detect_walls_fuzzy cv image_path =
      [''success'' \<mapsto> Bool False, ''error'' \<mapsto> Str (str_of_exception e), ''walls'' \<mapsto> Walls []]"
    by (simp add: detect_walls_fuzzy_def)
  then show "dom (detect_walls_fuzzy cv image_path) = {''success'', ''error'', ''walls''}"
    by auto
next
  assume "imread_gray cv image_path = None"
  then show "try_body cv image_path = Inl (ValueError (''Could not read image: '' @ image_path))"
    by (simp add: try_body_def)
next
  assume s: "try_body cv image_path = Inr r"
  then show "detect_walls_fuzzy cv image_path = r" by (simp add: detect_walls_fuzzy_def)
  from try_body_success [OF s] show "r ''success'' = Some (Bool True)" by blast
  from try_body_success [OF s]
  show "\<exists>walls doors windows arches.
         r ''walls'' = Some (Walls walls) \<and> r ''doors'' = Some (Openings doors) \<and>
         r ''windows'' = Some (Openings windows) \<and> r ''arches'' = Some (Openings arches)"
    by blast
next
  show "\<exists>b. detect_walls_fuzzy cv image_path ''success'' = Some (Bool b)"
  proof (cases "try_body cv image_path")
    case (Inl e)
    then show ?thesis by (auto simp: detect_walls_fuzzy_def)
  next
    case (Inr r)
    with try_body_success [OF Inr] show ?thesis by (auto simp: detect_walls_fuzzy_def)
  qed
qed

text \<open>
  The unreadable path gives the failure dictionary; the blank image gives success with
  empty collections.
\<close>

theorem detect_walls_fuzzy_result_witness:
  "detect_walls_fuzzy unreadable_cv ''plan.png'' =
     [''success'' \<mapsto> Bool False, ''error'' \<mapsto> Str ''Could not read image: plan.png'',
      ''walls'' \<mapsto> Walls []] \<and>
   detect_walls_fuzzy blank_cv ''blank.png'' ''success'' = Some (Bool True) \<and>
   detect_walls_fuzzy blank_cv ''blank.png'' ''walls'' = Some (Walls []) \<and>
   detect_walls_fuzzy blank_cv ''blank.png'' ''doors'' = Some (Openings [])"
  using
    detect_walls_fuzzy_result [where cv = unreadable_cv and image_path = "''plan.png''"
      and e = "ValueError ''Could not read image: plan.png''" and r = Map.empty]
    detect_walls_fuzzy_result [where cv = blank_cv and image_path = "''blank.png''"
      and e = "ValueError []"
      and r = "[''success'' \<mapsto> Bool True, ''walls'' \<mapsto> Walls [], ''doors'' \<mapsto> Openings [],
          ''windows'' \<mapsto> Openings [], ''arches'' \<mapsto> Openings [],
          ''method'' \<mapsto> Str ''fuzzy_canny_complete'', ''image_stats'' \<mapsto> ImageStats 400 400 0,
          ''totals'' \<mapsto> Totals 0 0 0 0]"]
    blank_result
  by (simp add: try_body_def unreadable_cv_def)


section \<open>Wall thickness\<close>

text \<open>
  C7. For a group of two or more segments the consolidated wall's thickness is the
  maximum pairwise midpoint distance of the group clamped to [4, 25]; the raw estimate
  lies in [3, 25]; and every wall among the candidates, after consolidation, and in the
  final wall list has a thickness in [3, 25], for any Hough lines and any image.
\<close>

theorem wall_thickness_bounds:
  "(2 \<le> length g \<longrightarrow>
      calculate_group_thickness g =
        min (max (Max {line_to_line_distance (g ! i) (g ! j) | i j. i < j \<and> j < length g}) 4) 25 \<and>
      (\<exists>w. merge_collinear_segments g = [w] \<and> thickness w = calculate_group_thickness g) \<and>
      4 \<le> calculate_group_thickness g \<and> calculate_group_thickness g \<le> 25) \<and>
   3 \<le> estimate_thickness x1 y1 x2 y2 gray \<and> estimate_thickness x1 y1 x2 y2 gray \<le> 25 \<and>
   (\<forall>w \<in> set (classify_lines gray ls). 3 \<le> thickness w \<and> thickness w \<le> 25) \<and>
   (\<forall>w \<in> set (consolidate_wall_segments (classify_lines gray ls)).
      3 \<le> thickness w \<and> thickness w \<le> 25) \<and>
   (\<forall>w \<in> set (detect_walls canny gray lines). 3 \<le> thickness w \<and> thickness w \<le> 25)"
proof (intro conjI impI)
  assume g: "2 \<le> length g"
  from calculate_group_thickness_Max [OF g]
  show "calculate_group_thickness g =
        min (max (Max {line_to_line_distance (g ! i) (g ! j) | i j. i < j \<and> j < length g}) 4) 25"
    by (simp only: pairwise_distances_set)
  from merge_collinear_segments_many [OF g]
  show "\<exists>w. merge_collinear_segments g = [w] \<and> thickness w = calculate_group_thickness g"
    by blast
next
  show "4 \<le> calculate_group_thickness g" "calculate_group_thickness g \<le> 25"
    using calculate_group_thickness_range [of g] by simp_all
  show "3 \<le> estimate_thickness x1 y1 x2 y2 gray" "estimate_thickness x1 y1 x2 y2 gray \<le> 25"
    using estimate_thickness_range [of x1 y1 x2 y2 gray] by simp_all
  show "\<forall>w \<in> set (classify_lines gray ls). 3 \<le> thickness w \<and> thickness w \<le> 25"
    by (rule classify_lines_thickness)
  show "\<forall>w \<in> set (detect_walls canny gray lines). 3 \<le> thickness w \<and> thickness w \<le> 25"
    by (rule detect_walls_thickness)
  show "\<forall>w \<in> set (consolidate_wall_segments (classify_lines gray ls)).
      3 \<le> thickness w \<and> thickness w \<le> 25"
  proof
    fix w assume "w \<in> set (consolidate_wall_segments (classify_lines gray ls))"
    then have "w \<in> set (structural_walls
        (concat (map merge_collinear_segments (group_parallel_lines (classify_lines gray ls)))))"
      using apply_structural_focus_subset by (auto simp: consolidate_wall_segments_eq)
    from structural_walls_members [OF this] merged_thickness [OF classify_lines_thickness, of gray ls]
    show "3 \<le> thickness w \<and> thickness w \<le> 25" by auto
  qed
qed

text \<open>
  Two parallel lines 8 pixels apart consolidate to thickness 8; on the dark image the
  raw estimate is the default 6, on every candidate and every final wall.
\<close>

theorem wall_thickness_bounds_witness:
  "calculate_group_thickness
     [example_wall (0, 0) (400, 0) 400 2, example_wall (0, 8) (400, 8) 400 2] = 8 \<and>
   estimate_thickness 135 200 265 200 dark_image = 6 \<and>
   map thickness (classify_lines dark_image five_lines) = [6, 6, 6, 6, 6] \<and>
   map thickness (detect_walls no_edges dark_image (Some five_lines)) = [6, 6, 6, 6, 6]"
proof -
  have a: "calculate_group_thickness
     [example_wall (0, 0) (400, 0) 400 2, example_wall (0, 8) (400, 8) 400 2] = 8"
    by (simp add: calculate_group_thickness_def line_to_line_distance_def example_wall_def sqrt_64)
  have b: "estimate_thickness 135 200 265 200 dark_image = 6"
    by (rule estimate_thickness_dark) (simp add: dark_image_def)
  have c: "map thickness (classify_lines dark_image five_lines) = [6, 6, 6, 6, 6]"
    by (simp add: classify_five_lines raw_wall_def)
  have d: "map thickness (detect_walls no_edges dark_image (Some five_lines)) = [6, 6, 6, 6, 6]"
    by (simp add: detect_five_lines raw_wall_def)
  show ?thesis
    using wall_thickness_bounds [where g = "[example_wall (0, 0) (400, 0) 400 2,
        example_wall (0, 8) (400, 8) 400 2]"
      and ?x1.0 = 135 and ?y1.0 = 200 and ?x2.0 = 265 and ?y2.0 = 200 and gray = dark_image
      and ls = five_lines and canny = no_edges and lines = "Some five_lines"] a b c d
    apply -
    apply (intro conjI)
    apply assumption+
    done
qed

section \<open>Stage order\<close>

text \<open>
  C1, as stated, fails. The code scores and caps inside \<^verbatim>\<open>consolidate_wall_segments\<close>
  (its step 4) and applies the noise filter afterwards. On the five example lines the
  two orders differ: scoring first sorts the wall of length 160 to the front, and the
  cluster removal, which clusters around the first unused wall, then finds a cluster of
  two and keeps all five walls; filtering first finds a cluster of five around the first
  line and keeps only the two longest. This holds with the source's whole filter and
  with the two removals the specification names.
\<close>

theorem stage_order_counterexample:
  "detect_walls no_edges dark_image (Some five_lines) =
     [raw_wall (120, 225) (280, 225) 160 (Some (1/2)), raw_wall (135, 200) (265, 200) 130 (Some (2/5)),
      raw_wall (160, 200) (290, 200) 130 (Some (2/5)), raw_wall (135, 175) (265, 175) 130 (Some (2/5)),
      raw_wall (110, 200) (240, 200) 130 (Some (2/5))] \<and>
   spec_detect_walls no_edges dark_image (Some five_lines) =
     [raw_wall (120, 225) (280, 225) 160 (Some (1/2)), raw_wall (135, 200) (265, 200) 130 (Some (2/5))] \<and>
   apply_structural_focus
     (spec_noise_filter no_edges
        (concat (map merge_collinear_segments
           (group_parallel_lines (classify_lines dark_image five_lines)))) dark_image) =
     [raw_wall (120, 225) (280, 225) 160 (Some (1/2)), raw_wall (135, 200) (265, 200) 130 (Some (2/5))]"
proof -
  have a: "spec_detect_walls no_edges dark_image (Some five_lines) =
     [raw_wall (120, 225) (280, 225) 160 (Some (1/2)), raw_wall (135, 200) (265, 200) 130 (Some (2/5))]"
    by (simp only: spec_detect_walls_def option.case merged_five_lines filtering_raw_five focus_two)
  have "spec_noise_filter no_edges
     [raw_wall (135, 200) (265, 200) 130 None, raw_wall (120, 225) (280, 225) 160 None,
      raw_wall (160, 200) (290, 200) 130 None, raw_wall (135, 175) (265, 175) 130 None,
      raw_wall (110, 200) (240, 200) 130 None] dark_image =
     [raw_wall (120, 225) (280, 225) 160 None, raw_wall (135, 200) (265, 200) 130 None]"
    by (simp add: spec_noise_filter_def remove_text_clusters_def clusters_raw_five
        keep_from_cluster_def raw_wall_fields no_edges_no_text sort_descending_def
        del: enumerate_simps)
  then have b: "apply_structural_focus
     (spec_noise_filter no_edges
        (concat (map merge_collinear_segments
           (group_parallel_lines (classify_lines dark_image five_lines)))) dark_image) =
     [raw_wall (120, 225) (280, 225) 160 (Some (1/2)), raw_wall (135, 200) (265, 200) 130 (Some (2/5))]"
    by (simp only: merged_five_lines focus_two)
  from detect_five_lines a b show ?thesis by (simp only: simp_thms)
qed

text \<open>
  C1, amended. The structural scorer runs before the noise filter: for every list of
  Hough lines and every grayscale buffer the final wall list is the noise filter
  (\<^verbatim>\<open>apply_intelligent_filtering\<close>) applied to the scored and capped consolidated
  walls, it is empty when there are no lines, and every final wall carries a structural
  score above 0.3.
\<close>

theorem scoring_precedes_noise_filter:
  "detect_walls canny gray (Some ls) =
     apply_intelligent_filtering canny
       (apply_structural_focus
          (concat (map merge_collinear_segments (group_parallel_lines (classify_lines gray ls)))))
       gray \<and>
   detect_walls canny gray None = [] \<and>
   (\<forall>w \<in> set (detect_walls canny gray lines). \<exists>s. structural_score w = Some s \<and> s > 0.3)"
  using detect_walls_scored [of canny gray lines]
  by (simp add: detect_walls_def consolidate_wall_segments_eq)

theorem scoring_precedes_noise_filter_witness:
  "map structural_score (detect_walls no_edges dark_image (Some five_lines)) =
     [Some (1/2), Some (2/5), Some (2/5), Some (2/5), Some (2/5)] \<and>
   length (apply_structural_focus
     (concat (map merge_collinear_segments
        (group_parallel_lines (classify_lines dark_image five_lines))))) = 5"
proof -
  have a: "map structural_score (detect_walls no_edges dark_image (Some five_lines)) =
     [Some (1/2), Some (2/5), Some (2/5), Some (2/5), Some (2/5)]"
    by (simp add: detect_five_lines raw_wall_def)
  have b: "length (apply_structural_focus
     (concat (map merge_collinear_segments
        (group_parallel_lines (classify_lines dark_image five_lines))))) = 5"
    by (simp add: merged_five_lines focus_five)
  show ?thesis
    using scoring_precedes_noise_filter [of no_edges dark_image five_lines "Some five_lines"] a b
    apply -
    apply (intro conjI)
    apply assumption+
    done
qed


section \<open>Caps\<close>

text \<open>
  C8. For every input the door list has at most 20 entries and the arch list at most 15;
  both are sub-multisets of the deduplicated detections, and no dropped entry has a
  higher confidence than a kept one. For every list of Hough lines the wall list is no
  longer than the adaptive cap of the run, and whenever the run has a candidate wall
  (so that the cap is computed) the cap lies between 15 and 35; without a candidate,
  or without lines, the wall list is empty.
\<close>

theorem caps_respected:
  "length (detect_doors cv gray walls) \<le> 20 \<and>
   length (detect_arches gray walls) \<le> 15 \<and>
   (\<exists>syms. find_door_symbols (threshold_contours cv gray) walls = Inr syms \<and>
      mset (detect_doors cv gray walls) \<subseteq>#
        mset (filter_duplicate_doors
                (find_door_openings walls gray @ find_door_swings cv gray @ syms)) \<and>
      (\<forall>k \<in> set (detect_doors cv gray walls).
         \<forall>x \<in># mset (filter_duplicate_doors
                        (find_door_openings walls gray @ find_door_swings cv gray @ syms))
                - mset (detect_doors cv gray walls).
           conf x \<le> conf k)) \<and>
   mset (detect_arches gray walls) \<subseteq>#
     mset (filter_duplicate_arches (find_curved_arches gray @ find_wide_openings walls gray)) \<and>
   (\<forall>k \<in> set (detect_arches gray walls).
      \<forall>x \<in># mset (filter_duplicate_arches
                     (find_curved_arches gray @ find_wide_openings walls gray))
             - mset (detect_arches gray walls).
        conf x \<le> conf k) \<and>
   (classify_lines gray ls \<noteq> [] \<longrightarrow> 15 \<le> adaptive_cap gray ls \<and> adaptive_cap gray ls \<le> 35) \<and>
   length (detect_walls canny gray (Some ls)) \<le> adaptive_cap gray ls \<and>
   (classify_lines gray ls = [] \<longrightarrow> detect_walls canny gray (Some ls) = []) \<and>
   detect_walls canny gray None = []"
proof -
  from detect_doors_form [of cv gray walls] obtain syms
    where s: "find_door_symbols (threshold_contours cv gray) walls = Inr syms"
      and d: "detect_doors cv gray walls =
        (if length (filter_duplicate_doors
                      (find_door_openings walls gray @ find_door_swings cv gray @ syms)) > 20
         then take 20 (sort_descending conf
                (filter_duplicate_doors
                   (find_door_openings walls gray @ find_door_swings cv gray @ syms)))
         else filter_duplicate_doors
                (find_door_openings walls gray @ find_door_swings cv gray @ syms))"
    by blast
  note doors = cap_by_confidence
    [of 20 "filter_duplicate_doors (find_door_openings walls gray @ find_door_swings cv gray @ syms)",
     folded d]
  note arches = cap_by_confidence
    [of 15 "filter_duplicate_arches (find_curved_arches gray @ find_wide_openings walls gray)",
     folded detect_arches_form]
  have empty: "classify_lines gray ls = [] \<longrightarrow> detect_walls canny gray (Some ls) = []"
    by (simp add: detect_walls_def consolidate_wall_segments_def apply_intelligent_filtering_def
        remove_text_clusters_def sort_descending_def)
  have none: "detect_walls canny gray None = []" by (simp add: detect_walls_def)
  from doors arches s adaptive_cap_range [of gray ls] detect_walls_length [of canny gray ls]
    empty none
  show ?thesis by blast
qed

text \<open>
  Twenty-one distinct doors are cut to twenty and the swing curve of confidence 0.7 is
  the one dropped; the five example lines give five candidates, a cap of 15 and five
  walls.
\<close>

theorem caps_respected_witness:
  "length (detect_doors crowded_cv dark_image []) = 20 \<and>
   example_opening ''swing_curve'' (200, 0) (7/10) \<in> set swing_row \<and>
   example_opening ''swing_curve'' (200, 0) (7/10) \<notin> set (detect_doors crowded_cv dark_image []) \<and>
   detect_arches dark_image [] = [] \<and>
   length (classify_lines dark_image five_lines) = 5 \<and>
   adaptive_cap dark_image five_lines = 15 \<and>
   length (detect_walls no_edges dark_image (Some five_lines)) = 5"
proof -
  have g: "length (classify_lines dark_image five_lines) = 5"
    by (simp add: classify_five_lines)
  have a: "length (detect_doors crowded_cv dark_image []) = 20"
    by (simp add: detect_doors_crowded)
  have b: "example_opening ''swing_curve'' (200, 0) (7/10) \<in> set swing_row"
    by (simp add: swing_row_def)
  have c: "example_opening ''swing_curve'' (200, 0) (7/10) \<notin> set (detect_doors crowded_cv dark_image [])"
    by (simp add: detect_doors_crowded example_opening_def)
  have d: "detect_arches dark_image [] = []"
    by (simp add: detect_arches_def find_curved_arches_def filter_duplicate_arches_def
        filter_duplicate_doors_def)
  have e: "adaptive_cap dark_image five_lines = 15"
    by (simp add: adaptive_cap_def calculate_wall_thickness_from_groups_def merged_five_lines
        structural_five calculate_realistic_wall_count_def raw_wall_fields score_of_eval)
  have f: "length (detect_walls no_edges dark_image (Some five_lines)) = 5"
    by (simp add: detect_five_lines)
  show ?thesis
    using caps_respected [of crowded_cv dark_image "[]" five_lines no_edges] a b c d g e f
    apply -
    apply (intro conjI)
    apply assumption+
    done
qed


end
